theory Spec2Isabelle
  imports Complex_Main "HOL-Library.Log_Nat"
begin

section \<open>HRF retrieval: FIR design matrix, regression and selective averaging\<close>

text \<open>
  A shallow embedding of \<^verbatim>\<open>src/hrf.py\<close> (class \<^verbatim>\<open>HrfRetrieval\<close>).

  Numbers. Python and numpy compute with IEEE 754 binary64 floats, and so does this
  model: a float is a value of the type \<open>fl\<close>, each arithmetic operation computes the
  exact rational result and rounds it to the nearest binary64 value (ties to the even
  mantissa, gradual underflow, overflow to an infinity), and comparisons are the
  comparisons of IEEE 754. The length of \<^verbatim>\<open>np.arange\<close>, the truncation of
  \<^verbatim>\<open>np.fix\<close>, \<^verbatim>\<open>round\<close> and the equality tests of the source are therefore decided
  on the rounded values, as they are in the program. Two things are not modelled: the
  sign of a zero (a zero divisor counts as the positive zero: the zero divisors of the
  source are column sums and counts), and the order in which numpy's \<^verbatim>\<open>dot\<close>
  accumulates a sum, which numpy leaves to the BLAS library (here: left to right).
  A number that enters the program (\<open>TR\<close>, \<open>ER\<close>, the window, an onset read from the
  condition file) is given by its decimal value and enters as the nearest binary64
  value, as Python reads a literal.
\<close>

subsection \<open>Errors\<close>

datatype error =
    ZeroDivisionError
  | ValueError
  | OverflowError
  | IndexError
  | AttributeError
  | LinAlgError
  | UserDefinedException string

subsection \<open>Binary64 floats\<close>

text \<open>Rounding a rational to the nearest integer, a tie to the even neighbour.\<close>

definition rhe :: "rat \<Rightarrow> int" where
  "rhe x =
     (let f = \<lfloor>x\<rfloor>; d = x - of_int f
      in if d < 1 / 2 then f
         else if 1 / 2 < d then f + 1
         else if even f then f else f + 1)"

text \<open>The binary exponent of a rational \<open>x \<noteq> 0\<close>: the \<open>k\<close> with \<open>2^k \<le> |x| < 2^(k+1)\<close>;
  and the powers of two.\<close>

definition bexp :: "rat \<Rightarrow> int" where
  "bexp x = (if 1 \<le> \<bar>x\<bar> then bitlen \<lfloor>\<bar>x\<bar>\<rfloor> - 1 else - bitlen (\<lceil>1 / \<bar>x\<bar>\<rceil> - 1))"

definition pow2 :: "int \<Rightarrow> rat" where
  "pow2 e = (if 0 \<le> e then of_int (2 ^ nat e) else 1 / of_int (2 ^ nat (- e)))"

text \<open>The nearest number with a mantissa of 53 bits and an exponent of at least -1022
  (below that the spacing stays \<open>2^-1074\<close>: subnormal numbers).\<close>

definition rnd :: "rat \<Rightarrow> rat" where
  "rnd x = (if x = 0 then 0
            else let e = max (bexp x) (- 1022) - 52
                 in of_int (rhe (x / pow2 e)) * pow2 e)"

text \<open>A float: a finite number, an infinity, or not-a-number.\<close>

datatype fl = Fin rat | PInf | NInf | NaN

text \<open>The binary64 value of a rational: a rounded value of magnitude \<open>2^1024\<close> or more
  is an infinity.\<close>

definition rd :: "rat \<Rightarrow> fl" where
  "rd x = (let y = rnd x
           in if y = 0 \<or> bexp y < 1024 then Fin y else if 0 < y then PInf else NInf)"

text \<open>A sufficient test for a rational to be a binary64 value: a numerator below
  \<open>2^53\<close> over a power of two.\<close>

definition repr53 :: "rat \<Rightarrow> bool" where
  "repr53 x = (case quotient_of x of (p, q) \<Rightarrow>
       \<bar>p\<bar> < 2 ^ 53 \<and> bitlen q \<le> 1024 \<and> q = 2 ^ nat (bitlen q - 1))"

text \<open>The arithmetic of IEEE 754.\<close>

fun fneg :: "fl \<Rightarrow> fl" where
  "fneg (Fin a) = Fin (- a)"
| "fneg PInf = NInf"
| "fneg NInf = PInf"
| "fneg NaN = NaN"

fun fabs :: "fl \<Rightarrow> fl" where
  "fabs (Fin a) = Fin \<bar>a\<bar>"
| "fabs PInf = PInf"
| "fabs NInf = PInf"
| "fabs NaN = NaN"

fun fadd :: "fl \<Rightarrow> fl \<Rightarrow> fl" where
  "fadd (Fin a) (Fin b) = rd (a + b)"
| "fadd NaN y = NaN"
| "fadd x NaN = NaN"
| "fadd PInf NInf = NaN"
| "fadd NInf PInf = NaN"
| "fadd PInf y = PInf"
| "fadd x PInf = PInf"
| "fadd NInf y = NInf"
| "fadd x NInf = NInf"

definition fsub :: "fl \<Rightarrow> fl \<Rightarrow> fl" where
  "fsub x y = fadd x (fneg y)"

fun fmul :: "fl \<Rightarrow> fl \<Rightarrow> fl" where
  "fmul (Fin a) (Fin b) = rd (a * b)"
| "fmul NaN y = NaN"
| "fmul x NaN = NaN"
| "fmul (Fin a) PInf = (if a = 0 then NaN else if 0 < a then PInf else NInf)"
| "fmul (Fin a) NInf = (if a = 0 then NaN else if 0 < a then NInf else PInf)"
| "fmul PInf (Fin b) = (if b = 0 then NaN else if 0 < b then PInf else NInf)"
| "fmul NInf (Fin b) = (if b = 0 then NaN else if 0 < b then NInf else PInf)"
| "fmul PInf PInf = PInf"
| "fmul NInf NInf = PInf"
| "fmul PInf NInf = NInf"
| "fmul NInf PInf = NInf"

text \<open>Division as numpy does it on arrays: a zero divisor gives an infinity or
  not-a-number (and a warning), never an exception.\<close>

fun fdiv :: "fl \<Rightarrow> fl \<Rightarrow> fl" where
  "fdiv (Fin a) (Fin b) =
     (if b = 0 then (if a = 0 then NaN else if 0 < a then PInf else NInf) else rd (a / b))"
| "fdiv NaN y = NaN"
| "fdiv x NaN = NaN"
| "fdiv (Fin a) PInf = Fin 0"
| "fdiv (Fin a) NInf = Fin 0"
| "fdiv PInf (Fin b) = (if 0 \<le> b then PInf else NInf)"
| "fdiv NInf (Fin b) = (if 0 \<le> b then NInf else PInf)"
| "fdiv PInf y = NaN"
| "fdiv NInf y = NaN"

text \<open>\<^verbatim>\<open>==\<close> and \<^verbatim>\<open><\<close>: false whenever an operand is not-a-number.\<close>

fun feq :: "fl \<Rightarrow> fl \<Rightarrow> bool" where
  "feq NaN y = False"
| "feq x NaN = False"
| "feq x y = (x = y)"

fun flt :: "fl \<Rightarrow> fl \<Rightarrow> bool" where
  "flt (Fin a) (Fin b) = (a < b)"
| "flt NaN y = False"
| "flt x NaN = False"
| "flt x NInf = False"
| "flt PInf y = False"
| "flt NInf y = True"
| "flt x PInf = True"

text \<open>\<^verbatim>\<open>np.floor\<close>, \<^verbatim>\<open>np.fix\<close> (truncation towards zero) and \<^verbatim>\<open>np.round\<close> (to the
  nearest integer, a tie to the even one): an integer-valued float; infinities and
  not-a-number are returned as they are.\<close>

fun ffloor :: "fl \<Rightarrow> fl" where
  "ffloor (Fin a) = Fin (of_int \<lfloor>a\<rfloor>)"
| "ffloor x = x"

fun ffix :: "fl \<Rightarrow> fl" where
  "ffix (Fin a) = Fin (of_int (if 0 \<le> a then \<lfloor>a\<rfloor> else \<lceil>a\<rceil>))"
| "ffix x = x"

fun frint :: "fl \<Rightarrow> fl" where
  "frint (Fin a) = Fin (of_int (rhe a))"
| "frint x = x"

text \<open>The float of a Python int.\<close>

definition fl_of_int :: "int \<Rightarrow> fl" where
  "fl_of_int n = rd (of_int n)"

definition fl_of_nat :: "nat \<Rightarrow> fl" where
  "fl_of_nat n = rd (of_nat n)"

text \<open>\<^verbatim>\<open>a.sum()\<close> and \<^verbatim>\<open>a.mean()\<close> of a one-dimensional array, accumulated from left to
  right; the mean of no values is \<open>0 / 0\<close>.\<close>

definition fsum :: "fl list \<Rightarrow> fl" where
  "fsum xs = foldl fadd (Fin 0) xs"

definition fmean :: "fl list \<Rightarrow> fl" where
  "fmean xs = fdiv (fsum xs) (fl_of_nat (length xs))"

subsection \<open>Scalar helpers of Python and numpy\<close>

text \<open>\<^verbatim>\<open>round(x)\<close> of Python on a float: the nearest integer, a tie to the even one;
  \<^verbatim>\<open>ValueError\<close> for not-a-number and \<^verbatim>\<open>OverflowError\<close> for an infinity.\<close>

fun py_round :: "fl \<Rightarrow> error + int" where
  "py_round (Fin a) = Inr (rhe a)"
| "py_round NaN = Inl ValueError"
| "py_round x = Inl OverflowError"

text \<open>Python's \<^verbatim>\<open>/\<close> on floats raises on a zero divisor.\<close>

definition py_div :: "fl \<Rightarrow> fl \<Rightarrow> error + fl" where
  "py_div a b = (if b = Fin 0 then Inl ZeroDivisionError else Inr (fdiv a b))"

text \<open>\<^verbatim>\<open>np.mod(a, b)\<close> on floats: the exact remainder of the truncated division
  (C's \<^verbatim>\<open>fmod\<close>), to which the divisor is added when their signs differ; not-a-number
  for a zero divisor. In a Python \<^verbatim>\<open>if\<close> every float but zero is true, not-a-number
  included.\<close>

fun np_mod :: "fl \<Rightarrow> fl \<Rightarrow> fl" where
  "np_mod (Fin a) (Fin b) =
     (if b = 0 then NaN
      else let t = a / b;
               m = a - of_int (if 0 \<le> t then \<lfloor>t\<rfloor> else \<lceil>t\<rceil>) * b
           in if m \<noteq> 0 \<and> (b < 0) \<noteq> (m < 0) then rd (m + b) else Fin m)"
| "np_mod (Fin a) PInf = (if a < 0 then PInf else Fin a)"
| "np_mod (Fin a) NInf = (if 0 < a then NInf else Fin a)"
| "np_mod x y = NaN"

definition truthy :: "fl \<Rightarrow> bool" where
  "truthy x = (x \<noteq> Fin 0)"

text \<open>\<^verbatim>\<open>np.arange(start, stop, step)\<close> on floats. The length is the ceiling of the
  float \<open>(stop - start) / step\<close> (none when that is negative); the quotient is Python's,
  so a zero step raises; numpy raises \<^verbatim>\<open>ValueError\<close> when the quotient is not-a-number
  and \<^verbatim>\<open>OverflowError\<close> when its ceiling is no machine integer. The first two values
  are \<open>start\<close> and \<open>start + step\<close>; with \<open>delta\<close> their float difference, the \<open>i\<close>-th value
  is \<open>start + i * delta\<close>.\<close>

definition arange_len :: "fl \<Rightarrow> fl \<Rightarrow> fl \<Rightarrow> error + nat" where
  "arange_len start stop step =
     (if step = Fin 0 then Inl ZeroDivisionError
      else case fdiv (fsub stop start) step of
             NaN \<Rightarrow> Inl ValueError
           | PInf \<Rightarrow> Inl OverflowError
           | NInf \<Rightarrow> Inl OverflowError
           | Fin q \<Rightarrow>
               if \<lceil>q\<rceil> < - (2 ^ 63) \<or> 2 ^ 63 \<le> \<lceil>q\<rceil> then Inl OverflowError
               else Inr (nat \<lceil>q\<rceil>))"

definition arange :: "fl \<Rightarrow> fl \<Rightarrow> fl \<Rightarrow> error + fl list" where
  "arange start stop step =
     (case arange_len start stop step of
        Inl e \<Rightarrow> Inl e
      | Inr n \<Rightarrow>
          (let next = fadd start step;
               delta = fsub next start
           in Inr (map (\<lambda>i. if i = 0 then start else if i = 1 then next
                              else fadd start (fmul (fl_of_nat i) delta)) [0 ..< n])))"

text \<open>\<^verbatim>\<open>np.unique(a)\<close>: the sorted distinct values; with \<^verbatim>\<open>return_index=True\<close> also,
  for each of them, the index of its first occurrence in \<open>a\<close>.\<close>

definition unique :: "int list \<Rightarrow> int list" where
  "unique a = remdups_adj (sort a)"

definition first_index :: "int list \<Rightarrow> int \<Rightarrow> nat" where
  "first_index a v = length (takeWhile (\<lambda>x. x \<noteq> v) a)"

definition unique_index :: "int list \<Rightarrow> nat list" where
  "unique_index a = map (first_index a) (unique a)"

subsection \<open>Arrays\<close>

text \<open>A two-dimensional numpy array carries its shape, so that an array with no rows
  still has its number of columns; \<open>rows\<close> holds the entries row by row.\<close>

record mat =
  nrow :: nat
  ncol :: nat
  rows :: "fl list list"

text \<open>The timecourse and the response estimates are one- or two-dimensional.\<close>

datatype arr = A1 "fl list" | A2 mat

text \<open>\<^verbatim>\<open>a.shape[-1]\<close>.\<close>

fun shape_last :: "arr \<Rightarrow> nat" where
  "shape_last (A1 v) = length v"
| "shape_last (A2 m) = ncol m"

subsection \<open>The estimator's state\<close>

text \<open>A row of the condition file as \<^verbatim>\<open>np.genfromtxt\<close> returns it; the constructor
  reads the fields \<^verbatim>\<open>f0\<close> (onset), \<^verbatim>\<open>f1\<close> (condition code) and \<^verbatim>\<open>f4\<close> (label).\<close>

record event =
  f0 :: rat
  f1 :: int
  f4 :: string

text \<open>An entry of \<^verbatim>\<open>self.cond\<close>: a dictionary with the key \<^verbatim>\<open>'label'\<close> and, once
  they are assigned, \<^verbatim>\<open>'model'\<close>, \<^verbatim>\<open>'FIR_hrf'\<close> and \<^verbatim>\<open>'average_hrf'\<close>.\<close>

record condition =
  label :: string
  cond_model :: "mat option"
  FIR_hrf :: "arr option"
  average_hrf :: "arr option"

text \<open>\<^verbatim>\<open>self.model\<close>: a three-dimensional array (time, lag, condition) with its shape;
  \<open>cells ! t ! k ! c\<close> is the entry \<^verbatim>\<open>[t, k, c]\<close>.\<close>

record tensor =
  dim0 :: nat
  dim1 :: nat
  dim2 :: nat
  cells :: "fl list list list"

record hrf =
  tc :: arr
  ntps :: nat
  event_timing :: "fl list"
  event_number :: "int list"
  nconds :: nat
  c_labels :: "string list"
  c_codes :: "int list"
  cond :: "condition list"
  Tstart :: fl
  Tend :: fl
  TR :: fl
  ER :: fl
  nHEst :: int
  nPreStim :: fl
  tscale :: "fl list"
  model :: "tensor option"
  metric :: "string option"

text \<open>What the constructor prints.\<close>

datatype notice = ER_changed fl

subsection \<open>The constructor\<close>

text \<open>Lines 102 to 111: the effective resolution. \<^verbatim>\<open>TR/round(trmult)\<close> divides a
  Python float by a Python int.\<close>

definition choose_ER :: "fl \<Rightarrow> fl option \<Rightarrow> error + (fl \<times> notice list)" where
  "choose_ER tr er_opt =
     (case er_opt of
        None \<Rightarrow> Inr (tr, [])
      | Some er \<Rightarrow>
          if feq er tr then Inr (tr, [])
          else if truthy (np_mod tr er) then
            (case py_div tr er of
               Inl e \<Rightarrow> Inl e
             | Inr trmult \<Rightarrow>
                 (case py_round trmult of
                    Inl e \<Rightarrow> Inl e
                  | Inr r \<Rightarrow>
                      (case py_div tr (fl_of_int r) of
                         Inl e \<Rightarrow> Inl e
                       | Inr er' \<Rightarrow> Inr (er', [ER_changed er']))))
          else Inr (er, []))"

text \<open>Lines 70 to 123. For a condition file of fewer than two rows \<^verbatim>\<open>np.genfromtxt\<close>
  returns no one-dimensional array of records (an empty array for no row, a
  zero-dimensional one for one row), and reading a field (line 77) or indexing the
  labels (line 86) raises \<^verbatim>\<open>IndexError\<close>.\<close>

definition init :: "arr \<Rightarrow> event list \<Rightarrow> rat \<Rightarrow> rat option \<Rightarrow> rat \<times> rat \<Rightarrow> error + (hrf \<times> notice list)" where
  "init tsData cnd tr er_opt window =
     (if length cnd < 2 then Inl IndexError
      else
        (let timing = map (\<lambda>ev. rd (f0 ev)) cnd;
             number = map f1 cnd;
             event_labels = map f4 cnd;
             indexes = unique_index number;
             labels = map (\<lambda>index. event_labels ! index) indexes;
             tstart = fabs (rd (fst window));
             tend = fabs (rd (snd window))
         in case choose_ER (rd tr) (map_option rd er_opt) of
              Inl e \<Rightarrow> Inl e
            | Inr (er, out) \<Rightarrow>
                (case py_div tstart er of
                   Inl e \<Rightarrow> Inl e
                 | Inr qs \<Rightarrow>
                     (case py_round qs of
                        Inl e \<Rightarrow> Inl e
                      | Inr NPosEst \<Rightarrow>
                          (case py_div tend er of
                             Inl e \<Rightarrow> Inl e
                           | Inr qe \<Rightarrow>
                               (case py_round qe of
                                  Inl e \<Rightarrow> Inl e
                                | Inr NNegEst \<Rightarrow>
                                    (let nh = NPosEst + NNegEst;
                                         npre = ffloor qs
                                     in case arange (fmul (fadd (fneg npre) (Fin 1)) er)
                                               (fmul (fadd (fsub (fl_of_int nh) npre) (Fin 1)) er) er of
                                          Inl e \<Rightarrow> Inl e
                                        | Inr ts \<Rightarrow>
                                            Inr (\<lparr>tc = tsData, ntps = shape_last tsData,
                                                  event_timing = timing, event_number = number,
                                                  nconds = length (unique number),
                                                  c_labels = labels, c_codes = unique number,
                                                  cond = map (\<lambda>c_name. \<lparr>label = c_name,
                                                          cond_model = None, FIR_hrf = None,
                                                          average_hrf = None\<rparr>) labels,
                                                  Tstart = tstart, Tend = tend, TR = rd tr, ER = er,
                                                  nHEst = nh, nPreStim = npre, tscale = ts,
                                                  model = None, metric = None\<rparr>, out))))))))"

subsection \<open>Operations on arrays\<close>

definition zeros :: "nat \<Rightarrow> nat \<Rightarrow> mat" where
  "zeros n m = \<lparr>nrow = n, ncol = m, rows = replicate n (replicate m (Fin 0))\<rparr>"

definition zeros3 :: "nat \<Rightarrow> nat \<Rightarrow> nat \<Rightarrow> tensor" where
  "zeros3 n0 n1 n2 =
     \<lparr>dim0 = n0, dim1 = n1, dim2 = n2, cells = replicate n0 (replicate n1 (replicate n2 (Fin 0)))\<rparr>"

text \<open>\<^verbatim>\<open>m[:, k]\<close>.\<close>

definition col :: "mat \<Rightarrow> nat \<Rightarrow> fl list" where
  "col m k = map (\<lambda>r. r ! k) (rows m)"

text \<open>\<^verbatim>\<open>m.T\<close>.\<close>

definition transpose_mat :: "mat \<Rightarrow> mat" where
  "transpose_mat m = \<lparr>nrow = ncol m, ncol = nrow m, rows = map (col m) [0 ..< ncol m]\<rparr>"

text \<open>\<^verbatim>\<open>m.sum(axis=0)\<close> and \<^verbatim>\<open>m.mean(axis=0)\<close>: one value for each column.\<close>

definition sum_axis0 :: "mat \<Rightarrow> fl list" where
  "sum_axis0 m = map (\<lambda>k. fsum (col m k)) [0 ..< ncol m]"

definition mean_axis0 :: "mat \<Rightarrow> fl list" where
  "mean_axis0 m = map (\<lambda>k. fmean (col m k)) [0 ..< ncol m]"

text \<open>The inner product of two vectors of one length, and \<^verbatim>\<open>a.dot(b)\<close> for the shapes
  the source uses; numpy raises \<^verbatim>\<open>ValueError\<close> when the shapes are not aligned.\<close>

definition inner :: "fl list \<Rightarrow> fl list \<Rightarrow> fl" where
  "inner v w = fsum (map2 fmul v w)"

definition vec_dot_mat :: "fl list \<Rightarrow> mat \<Rightarrow> error + fl list" where
  "vec_dot_mat v m =
     (if length v = nrow m then Inr (map (\<lambda>k. inner v (col m k)) [0 ..< ncol m])
      else Inl ValueError)"

definition mat_dot_vec :: "mat \<Rightarrow> fl list \<Rightarrow> error + fl list" where
  "mat_dot_vec m v =
     (if ncol m = length v then Inr (map (\<lambda>r. inner r v) (rows m)) else Inl ValueError)"

definition mat_dot_mat :: "mat \<Rightarrow> mat \<Rightarrow> error + mat" where
  "mat_dot_mat a b =
     (if ncol a = nrow b
      then Inr \<lparr>nrow = nrow a, ncol = ncol b,
                rows = map (\<lambda>r. map (\<lambda>k. inner r (col b k)) [0 ..< ncol b]) (rows a)\<rparr>
      else Inl ValueError)"

text \<open>\<^verbatim>\<open>tc.dot(m)\<close> for a one- or two-dimensional \<open>tc\<close>.\<close>

fun arr_dot_mat :: "arr \<Rightarrow> mat \<Rightarrow> error + arr" where
  "arr_dot_mat (A1 v) m = map_sum id A1 (vec_dot_mat v m)"
| "arr_dot_mat (A2 a) m = map_sum id A2 (mat_dot_mat a m)"

text \<open>\<^verbatim>\<open>p.dot(tc.T)\<close>: the transpose of a one-dimensional array is the array itself.\<close>

fun mat_dot_arrT :: "mat \<Rightarrow> arr \<Rightarrow> error + arr" where
  "mat_dot_arrT p (A1 v) = map_sum id A1 (mat_dot_vec p v)"
| "mat_dot_arrT p (A2 a) = map_sum id A2 (mat_dot_mat p (transpose_mat a))"

text \<open>\<^verbatim>\<open>v[ind]\<close> with a boolean array \<open>ind\<close> of the length of \<open>v\<close>: the entries where
  \<open>ind\<close> is true.\<close>

definition mask_select :: "fl list \<Rightarrow> bool list \<Rightarrow> fl list" where
  "mask_select v ind = map fst (filter snd (zip v ind))"

text \<open>\<^verbatim>\<open>T[:, :, c]\<close> and the assignment \<^verbatim>\<open>T[:, :, c] = m\<close>.\<close>

definition slice2 :: "tensor \<Rightarrow> nat \<Rightarrow> mat" where
  "slice2 T c = \<lparr>nrow = dim0 T, ncol = dim1 T, rows = map (map (\<lambda>cell. cell ! c)) (cells T)\<rparr>"

definition assign_slice2 :: "tensor \<Rightarrow> nat \<Rightarrow> mat \<Rightarrow> tensor" where
  "assign_slice2 T c m =
     T\<lparr>cells := map2 (\<lambda>plane r. map2 (\<lambda>cell v. cell[c := v]) plane r) (cells T) (rows m)\<rparr>"

text \<open>\<^verbatim>\<open>T.reshape(T.shape[0], -1, order='F')\<close>: the entries are read and written with the
  first index changing fastest. The length \<open>-1\<close> stands for is the size divided by
  \<open>dim0\<close>, and numpy refuses to infer it when \<open>dim0\<close> is zero.\<close>

definition ravelF :: "tensor \<Rightarrow> fl list" where
  "ravelF T =
     concat (map (\<lambda>c. concat (map (\<lambda>k. map (\<lambda>t. cells T ! t ! k ! c) [0 ..< dim0 T])
                                [0 ..< dim1 T]))
                 [0 ..< dim2 T])"

definition reshapeF :: "tensor \<Rightarrow> error + mat" where
  "reshapeF T =
     (if dim0 T = 0 then Inl ValueError
      else Inr \<lparr>nrow = dim0 T, ncol = dim1 T * dim2 T,
                rows = map (\<lambda>t. map (\<lambda>j. ravelF T ! (t + dim0 T * j)) [0 ..< dim1 T * dim2 T])
                           [0 ..< dim0 T]\<rparr>)"

subsection \<open>Loops over the conditions\<close>

text \<open>A method mutates the object and may raise: it returns the object as the exception
  leaves it, and the exception if there is one. A \<^verbatim>\<open>for\<close> loop stops at the first
  exception.\<close>

fun for_loop :: "(nat \<Rightarrow> hrf \<Rightarrow> hrf \<times> error option) \<Rightarrow> nat list \<Rightarrow> hrf \<Rightarrow> hrf \<times> error option" where
  "for_loop body [] st = (st, None)"
| "for_loop body (c # cs) st =
     (case body c st of
        (st', None) \<Rightarrow> for_loop body cs st'
      | (st', Some e) \<Rightarrow> (st', Some e))"

subsection \<open>getFIRmodel\<close>

text \<open>Lines 139 and 140: the onsets of the events of code \<open>code\<close>, snapped to the ER grid
  (\<^verbatim>\<open>np.round(onsets / ER) * ER\<close> on an array).\<close>

definition rounded_onsets :: "hrf \<Rightarrow> int \<Rightarrow> fl list" where
  "rounded_onsets st code =
     map (\<lambda>onset. fmul (frint (fdiv onset (ER st))) (ER st))
         (map fst (filter (\<lambda>(onset, n). n = code) (zip (event_timing st) (event_number st))))"

text \<open>Line 146: \<^verbatim>\<open>np.fix(np.arange(0, ntps*TR, TR)*1e4)/1e4\<close>.\<close>

definition trScale :: "hrf \<Rightarrow> error + fl list" where
  "trScale st =
     (case arange (Fin 0) (fmul (fl_of_nat (ntps st)) (TR st)) (TR st) of
        Inl e \<Rightarrow> Inl e
      | Inr ts \<Rightarrow> Inr (map (\<lambda>x. fdiv (ffix (fmul x (Fin 10000))) (Fin 10000)) ts))"

text \<open>Lines 151 and 152: the time a lag of a trial is looked for at.\<close>

definition target :: "hrf \<Rightarrow> fl \<Rightarrow> nat \<Rightarrow> fl" where
  "target st ro Ntp =
     fdiv (frint (fmul (fadd ro (fmul (fsub (fl_of_nat Ntp) (nPreStim st)) (ER st))) (Fin 10000)))
          (Fin 10000)"

text \<open>\<^verbatim>\<open>trE[mask, Ntp] = 1\<close>. numpy raises \<^verbatim>\<open>IndexError\<close> when the boolean mask has
  not one entry for each row, whatever the mask holds, and when the column does not
  exist.\<close>

definition set_masked :: "bool list \<Rightarrow> nat \<Rightarrow> mat \<Rightarrow> error + mat" where
  "set_masked msk Ntp trE =
     (if length msk \<noteq> nrow trE \<or> ncol trE \<le> Ntp then Inl IndexError
      else Inr (trE\<lparr>rows := map2 (\<lambda>b r. if b then r[Ntp := Fin 1] else r) msk (rows trE)\<rparr>))"

text \<open>A loop whose body may raise stops at the first exception.\<close>

fun fold_err :: "('a \<Rightarrow> 'b \<Rightarrow> error + 'b) \<Rightarrow> 'a list \<Rightarrow> 'b \<Rightarrow> error + 'b" where
  "fold_err f [] s = Inr s"
| "fold_err f (x # xs) s = (case f x s of Inl e \<Rightarrow> Inl e | Inr s' \<Rightarrow> fold_err f xs s')"

definition lag_loop :: "hrf \<Rightarrow> fl list \<Rightarrow> fl \<Rightarrow> mat \<Rightarrow> error + mat" where
  "lag_loop st ts ro trE =
     fold_err (\<lambda>Ntp. set_masked (map (\<lambda>s. feq s (target st ro Ntp)) ts) Ntp)
       [0 ..< nat (nHEst st)] trE"

definition trial_loop :: "hrf \<Rightarrow> fl list \<Rightarrow> fl list \<Rightarrow> mat \<Rightarrow> error + mat" where
  "trial_loop st ts ros trE =
     fold_err (\<lambda>trial. lag_loop st ts (ros ! trial)) [0 ..< length ros] trE"

text \<open>The body of the loop over the conditions, lines 139 to 156.\<close>

definition fir_cond :: "nat \<Rightarrow> hrf \<Rightarrow> hrf \<times> error option" where
  "fir_cond c st =
     (if length (c_codes st) \<le> c then (st, Some IndexError)
      else
        (let ros = rounded_onsets st (c_codes st ! c)
         in case trScale st of
              Inl e \<Rightarrow> (st, Some e)
            | Inr ts \<Rightarrow>
                (case trial_loop st ts ros (zeros (ntps st) (nat (nHEst st))) of
                   Inl e \<Rightarrow> (st, Some e)
                 | Inr trE \<Rightarrow>
                     if length (cond st) \<le> c then (st, Some IndexError)
                     else
                       (let st1 = st\<lparr>cond := (cond st)[c := (cond st ! c)\<lparr>cond_model := Some trE\<rparr>]\<rparr>
                        in case model st1 of
                             None \<Rightarrow> (st1, Some AttributeError)
                           | Some T \<Rightarrow>
                               if dim2 T \<le> c then (st1, Some IndexError)
                               else if dim0 T \<noteq> nrow trE \<or> dim1 T \<noteq> ncol trE
                               then (st1, Some ValueError)
                               else (st1\<lparr>model := Some (assign_slice2 T c trE)\<rparr>, None)))))"

text \<open>Line 134 raises \<^verbatim>\<open>ValueError\<close> for a negative dimension.\<close>

definition getFIRmodel :: "hrf \<Rightarrow> hrf \<times> error option" where
  "getFIRmodel st =
     (if nHEst st < 0 then (st, Some ValueError)
      else for_loop fir_cond [0 ..< nconds st]
             (st\<lparr>model := Some (zeros3 (ntps st) (nat (nHEst st)) (nconds st))\<rparr>))"

subsection \<open>estimateHRF\<close>

text \<open>Lines 181 to 183: the mean of each column is subtracted from the column.\<close>

definition demean_columns :: "mat \<Rightarrow> mat" where
  "demean_columns m =
     (let mean = mean_axis0 m;
          mT = transpose_mat m;
          demean_model = mT\<lparr>rows := map2 (\<lambda>r mu. map (\<lambda>x. fsub x mu) r) (rows mT) mean\<rparr>
      in transpose_mat demean_model)"

text \<open>Lines 186 to 188: an array of ones with one more column, whose columns but the
  last are overwritten (\<^verbatim>\<open>a[:, :-1] = d\<close>).\<close>

definition ones :: "nat \<Rightarrow> nat \<Rightarrow> mat" where
  "ones n m = \<lparr>nrow = n, ncol = m, rows = replicate n (replicate m (Fin 1))\<rparr>"

definition assign_but_last :: "mat \<Rightarrow> mat \<Rightarrow> mat" where
  "assign_but_last a d = a\<lparr>rows := map2 (\<lambda>ra rd. rd @ drop (ncol a - 1) ra) (rows a) (rows d)\<rparr>"

definition fir_design :: "mat \<Rightarrow> mat" where
  "fir_design m =
     (let demean_model = demean_columns m
      in assign_but_last (ones (nrow demean_model) (ncol demean_model + 1)) demean_model)"

text \<open>\<^verbatim>\<open>b[range_st:range_end]\<close> along the first axis, for \<open>0 \<le> range_st \<le> range_end\<close>,
  and \<^verbatim>\<open>.T\<close>.\<close>

fun slice_rows :: "arr \<Rightarrow> nat \<Rightarrow> nat \<Rightarrow> arr" where
  "slice_rows (A1 v) range_st range_end = A1 (take (range_end - range_st) (drop range_st v))"
| "slice_rows (A2 b) range_st range_end =
     A2 (b\<lparr>nrow := min range_end (nrow b) - min range_st (nrow b),
            rows := take (range_end - range_st) (drop range_st (rows b))\<rparr>)"

fun arrT :: "arr \<Rightarrow> arr" where
  "arrT (A1 v) = A1 v"
| "arrT (A2 b) = A2 (transpose_mat b)"

text \<open>Lines 195 to 197. \<open>nHEst\<close> is not negative once \<^verbatim>\<open>self.model\<close> exists.\<close>

definition fir_assign :: "arr \<Rightarrow> nat \<Rightarrow> hrf \<Rightarrow> hrf \<times> error option" where
  "fir_assign b_est c st =
     (let range_st = c * nat (nHEst st);
          range_end = range_st + nat (nHEst st)
      in if length (cond st) \<le> c then (st, Some IndexError)
         else (st\<lparr>cond := (cond st)[c := (cond st ! c)
                   \<lparr>FIR_hrf := Some (arrT (slice_rows b_est range_st range_end))\<rparr>]\<rparr>, None))"

text \<open>Lines 178 to 197. \<^verbatim>\<open>np.linalg.pinv\<close> is numpy's: it is the parameter \<open>pinv\<close>,
  which returns nothing where numpy raises \<^verbatim>\<open>LinAlgError\<close>.\<close>

definition fir_path :: "(mat \<Rightarrow> mat option) \<Rightarrow> hrf \<Rightarrow> hrf \<times> error option" where
  "fir_path pinv st =
     (case model st of
        None \<Rightarrow> (st, Some AttributeError)
      | Some T \<Rightarrow>
          (case reshapeF T of
             Inl e \<Rightarrow> (st, Some e)
           | Inr m \<Rightarrow>
               (case pinv (fir_design m) of
                  None \<Rightarrow> (st, Some LinAlgError)
                | Some p \<Rightarrow>
                    (case mat_dot_arrT p (tc st) of
                       Inl e \<Rightarrow> (st, Some e)
                     | Inr b_est \<Rightarrow> for_loop (fir_assign b_est) [0 ..< nconds st] st))))"

text \<open>Line 203: the division of each row of lag sums by the column sums of the model.\<close>

fun arr_div_vec :: "arr \<Rightarrow> fl list \<Rightarrow> arr" where
  "arr_div_vec (A1 v) s = A1 (map2 fdiv v s)"
| "arr_div_vec (A2 a) s = A2 (a\<lparr>rows := map (\<lambda>r. map2 fdiv r s) (rows a)\<rparr>)"

text \<open>Lines 204 to 209: the mean over the lags that \<open>ind\<close> selects, for each voxel, is
  subtracted from every lag.\<close>

fun baseline_correct :: "arr \<Rightarrow> bool list \<Rightarrow> arr" where
  "baseline_correct (A1 v) ind =
     (let mean_prestim = fmean (mask_select v ind)
      in A1 (map (\<lambda>x. fsub x mean_prestim) v))"
| "baseline_correct (A2 a) ind =
     (let mean_prestim = map (\<lambda>r. fmean (mask_select r ind)) (rows a)
      in A2 (a\<lparr>rows := map2 (\<lambda>r mu. map (\<lambda>x. fsub x mu) r) (rows a) mean_prestim\<rparr>))"

text \<open>The body of the loop of lines 201 to 209. A boolean index of another length than
  the axis raises \<^verbatim>\<open>IndexError\<close>.\<close>

definition average_cond :: "bool list \<Rightarrow> nat \<Rightarrow> hrf \<Rightarrow> hrf \<times> error option" where
  "average_cond ind c st =
     (case model st of
        None \<Rightarrow> (st, Some AttributeError)
      | Some T \<Rightarrow>
          if dim2 T \<le> c then (st, Some IndexError)
          else
            (let m = slice2 T c
             in case arr_dot_mat (tc st) m of
                  Inl e \<Rightarrow> (st, Some e)
                | Inr num \<Rightarrow>
                    (let mean_hrf = arr_div_vec num (sum_axis0 m)
                     in if length ind \<noteq> shape_last mean_hrf then (st, Some IndexError)
                        else if length (cond st) \<le> c then (st, Some IndexError)
                        else (st\<lparr>cond := (cond st)[c := (cond st ! c)
                                  \<lparr>average_hrf := Some (baseline_correct mean_hrf ind)\<rparr>]\<rparr>,
                              None))))"

definition estimateHRF :: "(mat \<Rightarrow> mat option) \<Rightarrow> hrf \<Rightarrow> string \<Rightarrow> hrf \<times> error option" where
  "estimateHRF pinv st0 mtr =
     (let st = st0\<lparr>metric := Some mtr\<rparr>
      in if mtr = ''FIR'' then fir_path pinv st
         else if mtr = ''average'' then
           for_loop (average_cond (map (\<lambda>t. flt t (Fin 0)) (tscale st))) [0 ..< nconds st] st
         else (st, Some (UserDefinedException ''Metric can only be FIR/average!'')))"

subsection \<open>Notions of the specification\<close>

text \<open>The order in which the values of a list first appear.\<close>

definition first_appearance :: "int list \<Rightarrow> int list" where
  "first_appearance a = rev (remdups (rev a))"

subsection \<open>A small example\<close>

text \<open>Eight samples at \<open>TR = 2\<close>, two events of two conditions, the window \<open>[-4, 4]\<close>:
  the object the constructor builds from them, and a \<open>pinv\<close> that always fails.\<close>

definition example_tc :: arr where
  "example_tc = A1 (map (\<lambda>i. Fin (of_nat i)) [0 ..< 8])"

definition example_events :: "event list" where
  "example_events = [\<lparr>f0 = 4, f1 = 2, f4 = ''B''\<rparr>, \<lparr>f0 = 8, f1 = 1, f4 = ''A''\<rparr>]"

definition example_state :: hrf where
  "example_state =
     \<lparr>tc = example_tc, ntps = 8, event_timing = [Fin 4, Fin 8], event_number = [2, 1],
      nconds = 2, c_labels = [''A'', ''B''], c_codes = [1, 2],
      cond = [\<lparr>label = ''A'', cond_model = None, FIR_hrf = None, average_hrf = None\<rparr>,
              \<lparr>label = ''B'', cond_model = None, FIR_hrf = None, average_hrf = None\<rparr>],
      Tstart = Fin 4, Tend = Fin 4, TR = Fin 2, ER = Fin 2, nHEst = 4, nPreStim = Fin 2,
      tscale = [Fin (- 2), Fin 0, Fin 2, Fin 4], model = None, metric = None\<rparr>"

definition no_pinv :: "mat \<Rightarrow> mat option" where
  "no_pinv m = None"

subsection \<open>Well-formed arrays and the design matrix of a condition\<close>

text \<open>The rows of an array agree with its shape.\<close>

definition wf_mat :: "mat \<Rightarrow> bool" where
  "wf_mat m \<longleftrightarrow> length (rows m) = nrow m \<and> (\<forall>r \<in> set (rows m). length r = ncol m)"

definition wf_tensor :: "tensor \<Rightarrow> bool" where
  "wf_tensor T \<longleftrightarrow> length (cells T) = dim0 T
     \<and> (\<forall>plane \<in> set (cells T). length plane = dim1 T
          \<and> (\<forall>cell \<in> set plane. length cell = dim2 T))"

text \<open>The matrix of a condition as the specification words it, for the acquisition
  times \<open>ts\<close> and the snapped onsets \<open>ros\<close>: the entry \<open>[t, k]\<close> is 1 when the time of
  sample \<open>t\<close> equals the target time of lag \<open>k\<close> of some onset, and 0 otherwise.\<close>

definition fir_matrix :: "hrf \<Rightarrow> fl list \<Rightarrow> fl list \<Rightarrow> mat" where
  "fir_matrix st ts ros =
     \<lparr>nrow = ntps st, ncol = nat (nHEst st),
      rows = map (\<lambda>t. map (\<lambda>k. if \<exists>ro \<in> set ros. feq (ts ! t) (target st ro k)
                               then Fin 1 else Fin 0) [0 ..< nat (nHEst st)])
                 [0 ..< ntps st]\<rparr>"

definition trE_of :: "hrf \<Rightarrow> fl list \<Rightarrow> nat \<Rightarrow> mat" where
  "trE_of st ts c = fir_matrix st ts (rounded_onsets st (c_codes st ! c))"

text \<open>The acquisition time of sample \<open>t\<close> as the specification words it:
  \<open>fix(t * TR * 1e4) / 1e4\<close>.\<close>

definition acq_time :: "hrf \<Rightarrow> nat \<Rightarrow> fl" where
  "acq_time st t = fdiv (ffix (fmul (fmul (fl_of_nat t) (TR st)) (Fin 10000))) (Fin 10000)"

definition acq_times :: "hrf \<Rightarrow> fl list" where
  "acq_times st = map (acq_time st) [0 ..< ntps st]"

text \<open>A binary64 value: rounding leaves it as it is.\<close>

fun is_double :: "fl \<Rightarrow> bool" where
  "is_double (Fin a) = (rd a = Fin a)"
| "is_double x = True"

subsection \<open>The averaged response as the specification words it\<close>

text \<open>For one voxel \<open>v\<close> and the design matrix \<open>M\<close> of a condition: the value at lag \<open>k\<close>
  is the sum of the samples that \<open>M\<close> selects for \<open>k\<close>, divided by the sum of column
  \<open>k\<close>; the baseline is the mean of these values over the lags whose \<open>tscale\<close> is
  negative; the estimate is the value minus the baseline at every lag. A two-dimensional
  timecourse is treated voxel by voxel.\<close>

definition mean_hrf_spec :: "fl list \<Rightarrow> mat \<Rightarrow> nat \<Rightarrow> fl" where
  "mean_hrf_spec v M k =
     fdiv (fsum (map (\<lambda>t. fmul (v ! t) (rows M ! t ! k)) [0 ..< nrow M]))
          (fsum (map (\<lambda>t. rows M ! t ! k) [0 ..< nrow M]))"

definition baseline_spec :: "fl list \<Rightarrow> mat \<Rightarrow> fl list \<Rightarrow> fl" where
  "baseline_spec v M ts =
     fmean (map (mean_hrf_spec v M) (filter (\<lambda>k. flt (ts ! k) (Fin 0)) [0 ..< ncol M]))"

definition average_spec :: "fl list \<Rightarrow> mat \<Rightarrow> fl list \<Rightarrow> fl list" where
  "average_spec v M ts =
     map (\<lambda>k. fsub (mean_hrf_spec v M k) (baseline_spec v M ts)) [0 ..< ncol M]"

fun average_spec_arr :: "arr \<Rightarrow> mat \<Rightarrow> fl list \<Rightarrow> arr" where
  "average_spec_arr (A1 v) M ts = A1 (average_spec v M ts)"
| "average_spec_arr (A2 a) M ts =
     A2 \<lparr>nrow = nrow a, ncol = ncol M, rows = map (\<lambda>v. average_spec v M ts) (rows a)\<rparr>"

text \<open>The rows of a two-dimensional timecourse agree with its shape, and the voxel rows
  of an array.\<close>

fun wf_arr :: "arr \<Rightarrow> bool" where
  "wf_arr (A1 v) = True"
| "wf_arr (A2 a) = wf_mat a"

fun arr_rows :: "arr \<Rightarrow> fl list list" where
  "arr_rows (A1 v) = [v]"
| "arr_rows (A2 a) = rows a"

text \<open>The object built from the same samples and two events of one condition, at the
  onsets 2 and 0, whose first lag lies before the first sample.\<close>

definition early_events :: "event list" where
  "early_events = [\<lparr>f0 = 2, f1 = 1, f4 = ''A''\<rparr>, \<lparr>f0 = 0, f1 = 1, f4 = ''A''\<rparr>]"

definition early_state :: hrf where
  "early_state =
     \<lparr>tc = example_tc, ntps = 8, event_timing = [Fin 2, Fin 0], event_number = [1, 1],
      nconds = 1, c_labels = [''A''], c_codes = [1],
      cond = [\<lparr>label = ''A'', cond_model = None, FIR_hrf = None, average_hrf = None\<rparr>],
      Tstart = Fin 4, Tend = Fin 4, TR = Fin 2, ER = Fin 2, nHEst = 4, nPreStim = Fin 2,
      tscale = [Fin (- 2), Fin 0, Fin 2, Fin 4], model = None, metric = None\<rparr>"

subsection \<open>The regression design as the specification words it\<close>

text \<open>The design matrices of the conditions side by side, in the order of the list: row
  \<open>t\<close> is row \<open>t\<close> of the first matrix, followed by row \<open>t\<close> of the second, and so on.\<close>

definition hconcat :: "mat list \<Rightarrow> nat \<Rightarrow> mat" where
  "hconcat Ms n =
     \<lparr>nrow = n, ncol = sum_list (map ncol Ms),
      rows = map (\<lambda>t. concat (map (\<lambda>M. rows M ! t) Ms)) [0 ..< n]\<rparr>"

text \<open>Every column has its mean subtracted, and a column of ones is appended.\<close>

definition demean_append :: "mat \<Rightarrow> mat" where
  "demean_append H =
     \<lparr>nrow = nrow H, ncol = ncol H + 1,
      rows = map (\<lambda>t. map (\<lambda>j. fsub (rows H ! t ! j) (fmean (col H j))) [0 ..< ncol H] @ [Fin 1])
                 [0 ..< nrow H]\<rparr>"

definition design_spec :: "mat list \<Rightarrow> nat \<Rightarrow> mat" where
  "design_spec Ms n = demean_append (hconcat Ms n)"

text \<open>The estimate of condition \<open>c\<close>: rows \<open>c * n\<close> to \<open>c * n + n - 1\<close> of the
  coefficients, one value per lag for a one-dimensional timecourse, and transposed to
  voxels by lags for a two-dimensional one. The last row of the coefficients, the
  intercept, belongs to no block.\<close>

fun fir_block_spec :: "arr \<Rightarrow> nat \<Rightarrow> nat \<Rightarrow> arr" where
  "fir_block_spec (A1 b) c n = A1 (map (\<lambda>k. b ! (c * n + k)) [0 ..< n])"
| "fir_block_spec (A2 b) c n =
     A2 \<lparr>nrow = ncol b, ncol = n,
         rows = map (\<lambda>v. map (\<lambda>k. rows b ! (c * n + k) ! v) [0 ..< n]) [0 ..< ncol b]\<rparr>"

text \<open>The number of rows of an array of coefficients.\<close>

fun arr_len :: "arr \<Rightarrow> nat" where
  "arr_len (A1 v) = length v"
| "arr_len (A2 a) = nrow a"

text \<open>A total stand-in for the pseudo-inverse, of the right shape, used to run the
  regression path on the example.\<close>

definition transpose_pinv :: "mat \<Rightarrow> mat option" where
  "transpose_pinv m = Some (transpose_mat m)"

section \<open>Binary64 rounding\<close>

lemma pow2_powi: "pow2 e = 2 powi e"
  by (simp add: pow2_def power_int_def inverse_eq_divide power_one_over)

lemma pow2_pos: "0 < pow2 e"
  by (simp add: pow2_powi)

lemma pow2_add: "pow2 (a + b) = pow2 a * pow2 b"
  by (simp add: pow2_powi power_int_add)

lemma pow2_mono: "a \<le> b \<Longrightarrow> pow2 a \<le> pow2 b"
  by (simp add: pow2_powi power_int_increasing)

lemma pow2_less_iff: "pow2 a < pow2 b \<longleftrightarrow> a < b"
proof
  assume l: "pow2 a < pow2 b"
  show "a < b"
  proof (rule ccontr)
    assume "\<not> a < b"
    then have "pow2 b \<le> pow2 a" by (intro pow2_mono) simp
    with l show False by simp
  qed
next
  assume "a < b"
  then show "pow2 a < pow2 b" by (simp add: pow2_powi power_int_strict_increasing)
qed

lemma pow2_nat: "0 \<le> e \<Longrightarrow> pow2 e = of_int (2 ^ nat e)"
  by (simp add: pow2_def)

lemma pow2_53: "pow2 53 = 2 ^ 53" "pow2 1 = 2" "pow2 0 = 1"
  by (simp_all add: pow2_def)

lemma rhe_int: "rhe (of_int n) = n"
  by (simp add: rhe_def)

lemma rhe_bounds: "\<lfloor>x\<rfloor> \<le> rhe x" "rhe x \<le> \<lceil>x\<rceil>"
proof -
  show "\<lfloor>x\<rfloor> \<le> rhe x" by (simp add: rhe_def Let_def)
  have "x \<noteq> of_int \<lfloor>x\<rfloor> \<Longrightarrow> \<lfloor>x\<rfloor> + 1 \<le> \<lceil>x\<rceil>"
    by (metis ceiling_altdef order_refl)
  moreover have "x = of_int \<lfloor>x\<rfloor> \<Longrightarrow> rhe x = \<lfloor>x\<rfloor>"
    by (metis rhe_int)
  moreover have "rhe x \<le> \<lfloor>x\<rfloor> + 1" by (simp add: rhe_def Let_def)
  ultimately show "rhe x \<le> \<lceil>x\<rceil>"
    by (metis ceiling_altdef order_refl)
qed

lemma bexp_lower: assumes "x \<noteq> 0" shows "pow2 (bexp x) \<le> \<bar>x\<bar>"
proof (cases "1 \<le> \<bar>x\<bar>")
  case True
  let ?n = "\<lfloor>\<bar>x\<bar>\<rfloor>"
  have n: "0 < ?n" using True by simp
  have b: "0 \<le> bitlen ?n - 1" using n by (simp add: bitlen_alt_def)
  have "(2::int) ^ nat (bitlen ?n - 1) \<le> ?n" using bitlen_bounds [OF n] by simp
  then have "(of_int (2 ^ nat (bitlen ?n - 1)) :: rat) \<le> of_int ?n" by (simp only: of_int_le_iff)
  also have "\<dots> \<le> \<bar>x\<bar>" by simp
  finally show ?thesis using True b by (simp add: bexp_def pow2_def)
next
  case False
  let ?m = "\<lceil>1 / \<bar>x\<bar>\<rceil> - 1"
  have x: "0 < \<bar>x\<bar>" "\<bar>x\<bar> < 1" using assms False by simp_all
  then have "1 < 1 / \<bar>x\<bar>" by simp
  then have m: "0 < ?m" by (simp add: less_ceiling_iff)
  have "?m < 2 ^ nat (bitlen ?m)" using bitlen_bounds [OF m] by simp
  then have "\<lceil>1 / \<bar>x\<bar>\<rceil> \<le> 2 ^ nat (bitlen ?m)" by simp
  then have "1 / \<bar>x\<bar> \<le> of_int (2 ^ nat (bitlen ?m))" by (simp only: ceiling_le_iff)
  then have le: "1 / of_int (2 ^ nat (bitlen ?m)) \<le> \<bar>x\<bar>"
    using x(1) by (simp add: field_simps)
  have "bitlen ?m > 0" using m by (simp add: bitlen_alt_def)
  then show ?thesis using False le by (simp add: bexp_def pow2_def)
qed

lemma bexp_upper: assumes "x \<noteq> 0" shows "\<bar>x\<bar> < pow2 (bexp x + 1)"
proof (cases "1 \<le> \<bar>x\<bar>")
  case True
  let ?n = "\<lfloor>\<bar>x\<bar>\<rfloor>"
  have n: "0 < ?n" using True by simp
  have b: "0 \<le> bitlen ?n - 1" using n by (simp add: bitlen_alt_def)
  have "?n < 2 ^ nat (bitlen ?n)" using bitlen_bounds [OF n] by simp
  then have "\<bar>x\<bar> < of_int (2 ^ nat (bitlen ?n))" by (simp only: floor_less_iff)
  then show ?thesis using True b by (simp add: bexp_def pow2_def)
next
  case False
  let ?m = "\<lceil>1 / \<bar>x\<bar>\<rceil> - 1"
  have x: "0 < \<bar>x\<bar>" "\<bar>x\<bar> < 1" using assms False by simp_all
  then have "1 < 1 / \<bar>x\<bar>" by simp
  then have m: "0 < ?m" by (simp add: less_ceiling_iff)
  have bl: "bitlen ?m > 0" using m by (simp add: bitlen_alt_def)
  have "(2::int) ^ nat (bitlen ?m - 1) \<le> ?m" using bitlen_bounds [OF m] by simp
  then have "2 ^ nat (bitlen ?m - 1) < \<lceil>1 / \<bar>x\<bar>\<rceil>" by simp
  then have "of_int (2 ^ nat (bitlen ?m - 1)) < 1 / \<bar>x\<bar>" by (simp only: less_ceiling_iff)
  then have lt: "\<bar>x\<bar> < 1 / of_int (2 ^ nat (bitlen ?m - 1))"
    using x(1) by (simp add: field_simps)
  show ?thesis
  proof (cases "bitlen ?m = 1")
    case True
    then show ?thesis using False x by (simp add: bexp_def pow2_def)
  next
    case False
    with bl have "- bitlen ?m + 1 < 0" by simp
    moreover have "nat (- (- bitlen ?m + 1)) = nat (bitlen ?m - 1)" by simp
    ultimately show ?thesis using \<open>\<not> 1 \<le> \<bar>x\<bar>\<close> lt by (simp add: bexp_def pow2_def)
  qed
qed

lemma bexp_unique:
  assumes "pow2 k \<le> \<bar>x\<bar>" "\<bar>x\<bar> < pow2 (k + 1)"
  shows "bexp x = k"
proof -
  have x: "x \<noteq> 0" using assms(1) pow2_pos [of k] by auto
  have "pow2 (bexp x) < pow2 (k + 1)" using bexp_lower [OF x] assms(2) by simp
  then have 1: "bexp x \<le> k" by (simp add: pow2_less_iff)
  have "pow2 k < pow2 (bexp x + 1)" using bexp_upper [OF x] assms(1) by simp
  then have 2: "k \<le> bexp x" by (simp add: pow2_less_iff)
  from 1 2 show ?thesis by simp
qed


lemma rnd_exact:
  assumes m: "\<bar>m\<bar> < 2 ^ 53" and e: "- 1074 \<le> e"
  shows "rnd (of_int m * pow2 e) = of_int m * pow2 e"
proof (cases "m = 0")
  case True
  then show ?thesis by (simp add: rnd_def)
next
  case False
  let ?x = "of_int m * pow2 e :: rat"
  have x: "?x \<noteq> 0" using False pow2_pos [of e] by simp
  let ?e = "max (bexp ?x) (- 1022) - 52"
  have "\<bar>?x\<bar> = of_int \<bar>m\<bar> * pow2 e" using pow2_pos [of e] by (simp add: abs_mult)
  also have "\<dots> < of_int (2 ^ 53) * pow2 e"
    using m pow2_pos [of e] by (intro mult_strict_right_mono) (simp_all only: of_int_less_iff)
  also have "\<dots> = pow2 (53 + e)" by (simp add: pow2_add pow2_53)
  finally have "pow2 (bexp ?x) < pow2 (53 + e)" using bexp_lower [OF x] by simp
  then have "bexp ?x < 53 + e" by (simp add: pow2_less_iff)
  with e have le: "?e \<le> e" by simp
  have "pow2 e = pow2 (e - ?e) * pow2 ?e" by (simp flip: pow2_add)
  then have split: "pow2 e = of_int (2 ^ nat (e - ?e)) * pow2 ?e" using le by (simp add: pow2_nat)
  have "?x / pow2 ?e = of_int (m * 2 ^ nat (e - ?e))"
    using pow2_pos [of ?e] by (subst split) simp
  then have "rhe (?x / pow2 ?e) = m * 2 ^ nat (e - ?e)" by (simp only: rhe_int)
  then have "of_int (rhe (?x / pow2 ?e)) * pow2 ?e = ?x" by (subst (3) split) simp
  then show ?thesis using x by (simp add: rnd_def Let_def)
qed

lemma rnd_form:
  "\<exists>m e. rnd x = of_int m * pow2 e \<and> \<bar>m\<bar> \<le> 2 ^ 53 \<and> - 1074 \<le> e"
proof (cases "x = 0")
  case True
  then have "rnd x = of_int 0 * pow2 0" by (simp add: rnd_def)
  then show ?thesis by (intro exI [of _ 0] conjI) simp_all
next
  case False
  let ?e = "max (bexp x) (- 1022) - 52"
  let ?z = "x / pow2 ?e"
  have "\<bar>x\<bar> < pow2 (bexp x + 1)" using bexp_upper [OF False] .
  also have "\<dots> \<le> pow2 (?e + 53)" by (intro pow2_mono) simp
  also have "\<dots> = pow2 ?e * 2 ^ 53" unfolding pow2_add pow2_53 ..
  finally have "\<bar>?z\<bar> < 2 ^ 53" using pow2_pos [of ?e] by (simp add: field_simps abs_mult)
  then have z: "?z < of_int (2 ^ 53)" "of_int (- (2 ^ 53)) < ?z"
    unfolding abs_less_iff by simp_all
  have "\<lceil>?z\<rceil> \<le> 2 ^ 53" using z(1) by (simp only: ceiling_le_iff)
  moreover have "- (2 ^ 53) \<le> \<lfloor>?z\<rfloor>" using z(2) by (simp only: le_floor_iff)
  ultimately have "\<bar>rhe ?z\<bar> \<le> 2 ^ 53" using rhe_bounds [of ?z] by linarith
  moreover have "rnd x = of_int (rhe ?z) * pow2 ?e" using False by (simp add: rnd_def Let_def)
  moreover have "- 1074 \<le> ?e" by simp
  ultimately show ?thesis by blast
qed

lemma rnd_idem: "rnd (rnd x) = rnd x"
proof -
  obtain m e where r: "rnd x = of_int m * pow2 e" and m: "\<bar>m\<bar> \<le> 2 ^ 53" and e: "- 1074 \<le> e"
    using rnd_form by blast
  show ?thesis
  proof (cases "\<bar>m\<bar> < 2 ^ 53")
    case True
    then show ?thesis using rnd_exact [OF True e] r by simp
  next
    case False
    with m have "\<bar>m\<bar> = 2 ^ 53" by simp
    then consider "m = 2 ^ 53" | "m = - (2 ^ 53)" by (auto simp: abs_if split: if_splits)
    then obtain m' :: int where m': "m = m' * 2" "\<bar>m'\<bar> < 2 ^ 53"
    proof cases
      case 1
      then have "m = 2 ^ 52 * 2" "\<bar>2 ^ 52 :: int\<bar> < 2 ^ 53" by simp_all
      then show ?thesis using that by blast
    next
      case 2
      then have "m = - (2 ^ 52) * 2" "\<bar>- (2 ^ 52) :: int\<bar> < 2 ^ 53" by simp_all
      then show ?thesis using that by blast
    qed
    have "rnd x = of_int m' * pow2 (e + 1)" using r m'(1) by (simp add: pow2_add pow2_53)
    moreover have "- 1074 \<le> e + 1" using e by simp
    ultimately show ?thesis using rnd_exact [OF m'(2), of "e + 1"] by simp
  qed
qed

lemma rd_exact:
  assumes m: "\<bar>m\<bar> < 2 ^ 53" and e: "- 1074 \<le> e" "e \<le> 971"
  shows "rd (of_int m * pow2 e) = Fin (of_int m * pow2 e)"
proof (cases "m = 0")
  case True
  then show ?thesis by (simp add: rd_def rnd_def)
next
  case False
  let ?x = "of_int m * pow2 e :: rat"
  have x: "?x \<noteq> 0" using False pow2_pos [of e] by simp
  have "\<bar>?x\<bar> = of_int \<bar>m\<bar> * pow2 e" using pow2_pos [of e] by (simp add: abs_mult)
  also have "\<dots> < of_int (2 ^ 53) * pow2 e"
    using m pow2_pos [of e] by (intro mult_strict_right_mono) (simp_all only: of_int_less_iff)
  also have "\<dots> = pow2 (53 + e)" by (simp add: pow2_add pow2_53)
  also have "\<dots> \<le> pow2 1024" using e by (intro pow2_mono) simp
  finally have "pow2 (bexp ?x) < pow2 1024" using bexp_lower [OF x] by simp
  then have "bexp ?x < 1024" by (simp only: pow2_less_iff)
  then show ?thesis using rnd_exact [OF m e(1)] by (simp add: rd_def)
qed

lemma rd_idem: assumes "rd x = Fin y" shows "rd y = Fin y"
proof -
  from assms have y: "y = rnd x" and t: "rnd x = 0 \<or> bexp (rnd x) < 1024"
    by (auto simp: rd_def Let_def split: if_splits)
  show ?thesis using t rnd_idem [of x] by (simp add: rd_def y)
qed

lemma rd_0: "rd 0 = Fin 0"
  by (simp add: rd_def rnd_def)

lemma rd_int: "\<bar>n\<bar> < 2 ^ 53 \<Longrightarrow> rd (of_int n) = Fin (of_int n)"
  using rd_exact [of n 0] by (simp add: pow2_def)

lemma rd_nat: "n < 2 ^ 53 \<Longrightarrow> rd (of_nat n) = Fin (of_nat n)"
  using rd_int [of "int n"] by simp

lemma rd_repr53: assumes "repr53 x" shows "rd x = Fin x"
proof -
  obtain p q where pq: "quotient_of x = (p, q)" by (cases "quotient_of x")
  with assms have p: "\<bar>p\<bar> < 2 ^ 53" and b: "bitlen q \<le> 1024" and q: "q = 2 ^ nat (bitlen q - 1)"
    by (simp_all add: repr53_def)
  have q0: "0 < q" using quotient_of_denom_pos [OF pq] .
  then have bl: "0 < bitlen q" by (simp add: bitlen_alt_def)
  let ?k = "bitlen q - 1"
  have "x = of_int p / of_int q" using quotient_of_div [OF pq] .
  also have "of_int q = (of_int (2 ^ nat ?k) :: rat)" using q by simp
  also have "of_int p / (of_int (2 ^ nat ?k) :: rat) = of_int p * pow2 (- ?k)"
    using bl by (cases "?k = 0") (simp_all add: pow2_def)
  finally have x: "x = of_int p * pow2 (- ?k)" .
  show ?thesis using rd_exact [OF p, of "- ?k"] b bl x by simp
qed

lemma rd_code [code]:
  "rd x = (if repr53 x then Fin x
           else let y = rnd x
                in if y = 0 \<or> bexp y < 1024 then Fin y else if 0 < y then PInf else NInf)"
  using rd_repr53 [of x] by (simp add: rd_def)

section \<open>The constructor: conditions and the peristimulus grid\<close>

text \<open>What a successful construction stores.\<close>

lemma init_fields:
  assumes "init tsData cnd tr er_opt window = Inr (st, out)"
  shows "choose_ER (rd tr) (map_option rd er_opt) = Inr (ER st, out)"
    and "ER st \<noteq> Fin 0"
    and "TR st = rd tr" and "tc st = tsData" and "ntps st = shape_last tsData"
    and "Tstart st = fabs (rd (fst window))" and "Tend st = fabs (rd (snd window))"
    and "nPreStim st = ffloor (fdiv (Tstart st) (ER st))"
    and "\<exists>a b. py_round (fdiv (Tstart st) (ER st)) = Inr a
           \<and> py_round (fdiv (Tend st) (ER st)) = Inr b \<and> nHEst st = a + b"
    and "arange (fmul (fadd (fneg (nPreStim st)) (Fin 1)) (ER st))
           (fmul (fadd (fsub (fl_of_int (nHEst st)) (nPreStim st)) (Fin 1)) (ER st))
           (ER st) = Inr (tscale st)"
    and "event_timing st = map (\<lambda>ev. rd (f0 ev)) cnd" and "event_number st = map f1 cnd"
    and "c_codes st = unique (map f1 cnd)" and "nconds st = length (unique (map f1 cnd))"
    and "c_labels st = map (\<lambda>i. map f4 cnd ! i) (unique_index (map f1 cnd))"
    and "cond st = map (\<lambda>c_name. \<lparr>label = c_name, cond_model = None, FIR_hrf = None,
                                   average_hrf = None\<rparr>) (c_labels st)"
    and "model st = None" and "metric st = None"
    and "2 \<le> length cnd"
  using assms
  by (auto simp: init_def Let_def py_div_def split: sum.splits if_splits prod.splits)

lemma distinct_remdups_adj_sorted: "sorted (xs :: int list) \<Longrightarrow> distinct (remdups_adj xs)"
  by (induction xs rule: remdups_adj.induct) auto

lemma unique_props: "sorted (unique a)" "distinct (unique a)" "set (unique a) = set a"
  by (simp_all add: unique_def distinct_remdups_adj_sorted)

lemma unique_strict: "sorted_wrt (<) (unique a)"
  using unique_props(1,2) [of a] by (simp add: strict_sorted_iff)

lemma first_index_less: "v \<in> set a \<Longrightarrow> first_index a v < length a"
  unfolding first_index_def by (induction a) auto

lemma first_index_nth: "v \<in> set a \<Longrightarrow> a ! first_index a v = v"
  unfolding first_index_def by (induction a) auto

lemma first_index_least: "j < first_index a v \<Longrightarrow> a ! j \<noteq> v"
  unfolding first_index_def
proof (induction a arbitrary: j)
  case Nil
  then show ?case by simp
next
  case (Cons x a)
  then show ?case by (cases j) (auto split: if_splits)
qed

lemma init_conditions:
  assumes ok: "init tsData cnd tr er_opt window = Inr (st, out)"
  shows "nconds st = length (c_codes st)" "length (cond st) = length (c_codes st)"
    "0 < nconds st"
    "c < nconds st \<Longrightarrow> FIR_hrf (cond st ! c) = None \<and> average_hrf (cond st ! c) = None"
    "c < nconds st \<Longrightarrow> \<exists>ev \<in> set cnd. f1 ev = c_codes st ! c"
proof -
  note f = init_fields [OF ok]
  show n: "nconds st = length (c_codes st)" "length (cond st) = length (c_codes st)"
    by (simp_all add: f(13,14,15,16) unique_index_def)
  have "cnd \<noteq> []" using f(19) by auto
  then have "set (unique (map f1 cnd)) \<noteq> {}" unfolding unique_props(3) by simp
  then show "0 < nconds st" by (simp add: f(14))
  show "FIR_hrf (cond st ! c) = None \<and> average_hrf (cond st ! c) = None" if "c < nconds st"
    using that n by (simp add: f(16))
  show "\<exists>ev \<in> set cnd. f1 ev = c_codes st ! c" if "c < nconds st"
  proof -
    have "c_codes st ! c \<in> set (unique (map f1 cnd))" using that n(1) by (simp add: f(13))
    then show ?thesis unfolding unique_props(3) by auto
  qed
qed

lemma cond_example:
  "map_sum id (\<lambda>(st, out). (c_codes st, map label (cond st)))
     (init (A1 (replicate 8 (Fin 0)))
        [\<lparr>f0 = 4, f1 = 2, f4 = ''B''\<rparr>, \<lparr>f0 = 8, f1 = 1, f4 = ''A''\<rparr>,
         \<lparr>f0 = 10, f1 = 2, f4 = ''C''\<rparr>] 2 None (- 4, 24))
   = Inr ([1, 2], [''A'', ''B''])"
  by code_simp

text \<open>
  Claim C8 says that index \<open>nPreStim\<close> of \<open>tscale\<close> is the time 0. For \<open>TR = ER = 2\<close> and
  the window \<open>[-4, 24]\<close> the constructor stores \<open>nPreStim = 2\<close>, and \<open>tscale\<close> holds \<open>ER = 2\<close>
  at index 2 and the time 0 at index 1; only one entry of \<open>tscale\<close> is negative, although
  \<open>getFIRmodel\<close> places the onset at lag \<open>nPreStim\<close> and so has two lags before it.
\<close>

theorem tscale_at_nPreStim:
  "map_sum id (\<lambda>(st, out). (nPreStim st, ER st, tscale st ! 2, tscale st ! 1,
                              length (filter (\<lambda>t. flt t (Fin 0)) (tscale st))))
     (init (A1 (replicate 20 (Fin 0)))
        [\<lparr>f0 = 10, f1 = 1, f4 = ''A''\<rparr>, \<lparr>f0 = 30, f1 = 1, f4 = ''A''\<rparr>] 2 (Some 2) (- 4, 24))
   = Inr (Fin 2, Fin 2, Fin 2, Fin 0, 1)"
  by code_simp

text \<open>
  Claim C4 says that every mismatch of \<open>TR\<close> and \<open>ER\<close> is corrected with a notice and
  never an error. For \<open>TR = 1\<close> and \<open>ER = 3\<close> the remainder is not zero, \<open>round(TR/ER)\<close>
  is 0, and \<^verbatim>\<open>TR/round(trmult)\<close> raises \<^verbatim>\<open>ZeroDivisionError\<close>: no object is
  constructed.
\<close>

theorem ER_correction_fails:
  "choose_ER (Fin 1) (Some (Fin 3)) = Inl ZeroDivisionError
   \<and> init (A1 (replicate 20 (Fin 0)))
        [\<lparr>f0 = 10, f1 = 1, f4 = ''A''\<rparr>, \<lparr>f0 = 30, f1 = 1, f4 = ''A''\<rparr>] 1 (Some 3) (- 4, 24)
       = Inl ZeroDivisionError"
  by code_simp

text \<open>
  Claim C5 says that \<open>tscale\<close> has exactly \<open>nHEst\<close> values. For \<open>TR = 0.8\<close> (no \<open>ER\<close>)
  and the window \<open>[-0.5, 0.5]\<close> the constructor stores \<open>nHEst = 2\<close> and \<open>nPreStim = 0\<close>,
  and \<^verbatim>\<open>np.arange(0.8, 2.4000000000000004, 0.8)\<close> has the three values 0.8, 1.6 and
  2.4000000000000004: the float \<open>3 * 0.8\<close> lies above 2.4, the quotient of the length is
  2.0000000000000004, and its ceiling is 3.
\<close>

theorem tscale_length_mismatch:
  "map_sum id (\<lambda>(st, out). (Tstart st, Tend st, nHEst st, nPreStim st, length (tscale st), tscale st))
     (init (A1 [Fin 0, Fin 1])
        [\<lparr>f0 = 4 / 5, f1 = 1, f4 = ''A''\<rparr>, \<lparr>f0 = 8 / 5, f1 = 1, f4 = ''A''\<rparr>]
        (4 / 5) None (- (1 / 2), 1 / 2))
   = Inr (Fin (1 / 2), Fin (1 / 2), 2, Fin 0, 3,
          [Fin (3602879701896397 / 4503599627370496),
           Fin (3602879701896397 / 2251799813685248),
           Fin (1351079888211149 / 562949953421312)])"
  by code_simp

text \<open>
  Claim C7, as stated, orders the conditions by the first appearance of their codes. The
  event table with the codes 2, 1 gives the conditions in the order 1, 2 (labels A, B),
  while the order of first appearance is 2, 1.
\<close>

theorem condition_order_counterexample:
  "map_sum id (\<lambda>(st, out). (c_codes st, map label (cond st)))
     (init (A1 (replicate 8 (Fin 0)))
        [\<lparr>f0 = 4, f1 = 2, f4 = ''B''\<rparr>, \<lparr>f0 = 8, f1 = 1, f4 = ''A''\<rparr>] 2 None (- 4, 24))
   = Inr ([1, 2], [''A'', ''B''])
   \<and> first_appearance (map f1 [\<lparr>f0 = 4, f1 = 2, f4 = ''B''\<rparr>, \<lparr>f0 = 8, f1 = 1, f4 = ''A''\<rparr>])
       = [2, 1]"
  by code_simp

text \<open>
  Claim C7, amended. The condition records are in strictly ascending order of the
  condition codes of the event table, one record for each code, and the label of a
  condition is the label of the first event (in table order) that has its code.
\<close>

theorem condition_order:
  assumes ok: "init tsData cnd tr er_opt window = Inr (st, out)"
  shows "sorted_wrt (<) (c_codes st) \<and> set (c_codes st) = f1 ` set cnd
       \<and> length (cond st) = length (c_codes st) \<and> nconds st = length (c_codes st)
       \<and> (\<forall>i < length (c_codes st). \<exists>j < length cnd.
             f1 (cnd ! j) = c_codes st ! i \<and> (\<forall>j' < j. f1 (cnd ! j') \<noteq> c_codes st ! i)
             \<and> label (cond st ! i) = f4 (cnd ! j))"
proof -
  note f = init_fields [OF ok]
  have len: "length (cond st) = length (c_codes st)"
    by (simp add: f(16) f(15) f(13) unique_index_def)
  have each: "\<exists>j < length cnd.
             f1 (cnd ! j) = c_codes st ! i \<and> (\<forall>j' < j. f1 (cnd ! j') \<noteq> c_codes st ! i)
             \<and> label (cond st ! i) = f4 (cnd ! j)" if i: "i < length (c_codes st)" for i
  proof -
    let ?v = "c_codes st ! i" and ?a = "map f1 cnd"
    have "?v \<in> set (c_codes st)" using i by simp
    then have mem: "?v \<in> set ?a" using unique_props(3) [of ?a] by (simp add: f(13))
    let ?j = "first_index ?a ?v"
    have j: "?j < length cnd" using first_index_less [OF mem] by simp
    have "label (cond st ! i) = map f4 cnd ! first_index ?a (unique ?a ! i)"
      using i by (simp add: f(16) f(15) unique_index_def f(13))
    then have l: "label (cond st ! i) = f4 (cnd ! ?j)"
      using j by (simp add: f(13))
    have a: "f1 (cnd ! ?j) = ?v" using first_index_nth [OF mem] j by simp
    have b: "f1 (cnd ! j') \<noteq> ?v" if "j' < ?j" for j'
      using first_index_least [OF that] that j by simp
    show ?thesis using j l a b by blast
  qed
  have s: "sorted_wrt (<) (c_codes st)" using unique_strict [of "map f1 cnd"] by (simp add: f(13))
  have t: "set (c_codes st) = f1 ` set cnd"
    using unique_props(3) [of "map f1 cnd"] by (simp add: f(13))
  have n: "nconds st = length (c_codes st)" by (simp add: f(13) f(14))
  show ?thesis using s t len n each by blast
qed

theorem condition_order_witness:
  "\<exists>st out. init (A1 (replicate 8 (Fin 0)))
        [\<lparr>f0 = 4, f1 = 2, f4 = ''B''\<rparr>, \<lparr>f0 = 8, f1 = 1, f4 = ''A''\<rparr>,
         \<lparr>f0 = 10, f1 = 2, f4 = ''C''\<rparr>] 2 None (- 4, 24) = Inr (st, out)
     \<and> c_codes st = [1, 2] \<and> map label (cond st) = [''A'', ''B'']
     \<and> sorted_wrt (<) (c_codes st) \<and> length (cond st) = length (c_codes st)"
proof -
  let ?r = "init (A1 (replicate 8 (Fin 0)))
        [\<lparr>f0 = 4, f1 = 2, f4 = ''B''\<rparr>, \<lparr>f0 = 8, f1 = 1, f4 = ''A''\<rparr>,
         \<lparr>f0 = 10, f1 = 2, f4 = ''C''\<rparr>] 2 None (- 4, 24)"
  obtain st out where ok: "?r = Inr (st, out)"
    and v: "c_codes st = [1, 2]" "map label (cond st) = [''A'', ''B'']"
    using cond_example by (cases ?r) auto
  from condition_order [OF ok]
  have "sorted_wrt (<) (c_codes st)" "length (cond st) = length (c_codes st)"
    by blast+
  with ok v show ?thesis by (intro exI [of _ st] exI [of _ out] conjI)
qed

lemma example_state_init: "init example_tc example_events 2 None (- 4, 4) = Inr (example_state, [])"
  by code_simp

section \<open>estimateHRF: the metric\<close>

lemma for_loop_error:
  "snd (for_loop body cs st) = Some e \<Longrightarrow> \<exists>c s. snd (body c s) = Some e"
proof (induction cs arbitrary: st)
  case Nil
  then show ?case by simp
next
  case (Cons c cs)
  show ?case
  proof (cases "snd (body c st)")
    case None
    then obtain s' where "body c st = (s', None)" by (cases "body c st") auto
    with Cons show ?thesis by simp
  next
    case (Some e')
    then obtain s' where "body c st = (s', Some e')" by (cases "body c st") auto
    with Cons.prems have "e' = e" by simp
    with Some show ?thesis by blast
  qed
qed

lemma fir_assign_error: "snd (fir_assign b c s) = Some e \<Longrightarrow> e = IndexError"
  by (auto simp: fir_assign_def Let_def split: if_splits)

lemma mat_dot_arrT_error: "mat_dot_arrT p a = Inl e \<Longrightarrow> e = ValueError"
  by (cases a) (auto simp: mat_dot_vec_def mat_dot_mat_def split: if_splits)

lemma arr_dot_mat_error: "arr_dot_mat a m = Inl e \<Longrightarrow> e = ValueError"
  by (cases a) (auto simp: vec_dot_mat_def mat_dot_mat_def split: if_splits)

lemma fir_path_error:
  "snd (fir_path pinv st) = Some e \<Longrightarrow> e \<in> {AttributeError, ValueError, LinAlgError, IndexError}"
  by (auto simp: fir_path_def reshapeF_def split: option.splits sum.splits if_splits
      dest!: for_loop_error fir_assign_error mat_dot_arrT_error)

lemma average_cond_error:
  "snd (average_cond ind c s) = Some e \<Longrightarrow> e \<in> {AttributeError, ValueError, IndexError}"
  by (auto simp: average_cond_def Let_def split: option.splits sum.splits if_splits
      dest!: arr_dot_mat_error)

text \<open>
  Claim C6, as stated, has the state unchanged when the metric is rejected. The call
  with the metric \<open>bogus\<close> raises, and the object it leaves has \<^verbatim>\<open>self.metric\<close> set to
  the rejected name (line 174 runs before the test).
\<close>

theorem estimate_bogus_counterexample:
  "snd (estimateHRF no_pinv example_state ''bogus'')
     = Some (UserDefinedException ''Metric can only be FIR/average!'')
   \<and> metric example_state = None
   \<and> metric (fst (estimateHRF no_pinv example_state ''bogus'')) = Some ''bogus''
   \<and> fst (estimateHRF no_pinv example_state ''bogus'') \<noteq> example_state"
  by code_simp

text \<open>
  Claim C6, amended. \<open>estimateHRF\<close> raises \<^verbatim>\<open>UserDefinedException\<close> exactly when the
  metric is neither \<open>FIR\<close> nor \<open>average\<close>; then the only change of the state is that
  \<^verbatim>\<open>self.metric\<close> holds the rejected name: no condition record and no design matrix is
  touched.
\<close>

theorem estimate_invalid_metric:
  "((\<exists>msg. snd (estimateHRF pinv st mtr) = Some (UserDefinedException msg))
      \<longleftrightarrow> mtr \<notin> {''FIR'', ''average''})
   \<and> (mtr \<notin> {''FIR'', ''average''} \<longrightarrow>
        fst (estimateHRF pinv st mtr) = st\<lparr>metric := Some mtr\<rparr>
        \<and> cond (fst (estimateHRF pinv st mtr)) = cond st
        \<and> model (fst (estimateHRF pinv st mtr)) = model st)"
proof -
  have 1: "\<not> (\<exists>msg. snd (estimateHRF pinv st ''FIR'') = Some (UserDefinedException msg))"
    using fir_path_error [of pinv "st\<lparr>metric := Some ''FIR''\<rparr>"]
    by (auto simp: estimateHRF_def Let_def)
  have 2: "\<not> (\<exists>msg. snd (estimateHRF pinv st ''average'') = Some (UserDefinedException msg))"
  proof
    assume "\<exists>msg. snd (estimateHRF pinv st ''average'') = Some (UserDefinedException msg)"
    then obtain msg where "snd (estimateHRF pinv st ''average'') = Some (UserDefinedException msg)"
      by blast
    then obtain ind c s where "snd (average_cond ind c s) = Some (UserDefinedException msg)"
      by (auto simp: estimateHRF_def Let_def dest!: for_loop_error)
    from average_cond_error [OF this] show False by simp
  qed
  have 3: "mtr \<notin> {''FIR'', ''average''} \<Longrightarrow>
      estimateHRF pinv st mtr
        = (st\<lparr>metric := Some mtr\<rparr>, Some (UserDefinedException ''Metric can only be FIR/average!''))"
    by (simp add: estimateHRF_def Let_def)
  show ?thesis using 1 2 3 by auto
qed

theorem estimate_invalid_metric_witness:
  "snd (estimateHRF no_pinv example_state ''bogus'')
     = Some (UserDefinedException ''Metric can only be FIR/average!'')
   \<and> ''bogus'' \<notin> {''FIR'', ''average''}
   \<and> fst (estimateHRF no_pinv example_state ''bogus'') = example_state\<lparr>metric := Some ''bogus''\<rparr>
   \<and> cond (fst (estimateHRF no_pinv example_state ''bogus'')) = cond example_state"
proof -
  have b: "''bogus'' \<notin> {''FIR'', ''average''}" by simp
  have "snd (estimateHRF no_pinv example_state ''bogus'')
     = Some (UserDefinedException ''Metric can only be FIR/average!'')"
    by (simp add: estimateHRF_def Let_def)
  with b estimate_invalid_metric [of no_pinv example_state "''bogus''"] show ?thesis by simp
qed

section \<open>getFIRmodel: the design matrices\<close>

lemma wf_zeros: "wf_mat (zeros n m)" "nrow (zeros n m) = n" "ncol (zeros n m) = m"
  by (simp_all add: wf_mat_def zeros_def)

lemma zeros_nth: "t < n \<Longrightarrow> j < m \<Longrightarrow> rows (zeros n m) ! t ! j = Fin 0"
  by (simp add: zeros_def)

lemma set_masked_ok:
  assumes "wf_mat m" "length msk = nrow m" "k < ncol m"
  shows "\<exists>m'. set_masked msk k m = Inr m' \<and> wf_mat m' \<and> nrow m' = nrow m \<and> ncol m' = ncol m
     \<and> (\<forall>t < nrow m. \<forall>j < ncol m.
           rows m' ! t ! j = (if msk ! t \<and> j = k then Fin 1 else rows m ! t ! j))"
proof -
  let ?m = "m\<lparr>rows := map2 (\<lambda>b r. if b then r[k := Fin 1] else r) msk (rows m)\<rparr>"
  have run: "set_masked msk k m = Inr ?m" using assms by (simp add: set_masked_def)
  have wf: "wf_mat ?m" using assms by (auto simp: wf_mat_def set_zip)
  have nth: "rows ?m ! t ! j = (if msk ! t \<and> j = k then Fin 1 else rows m ! t ! j)"
    if "t < nrow m" "j < ncol m" for t j
  proof -
    have "length (rows m ! t) = ncol m" using assms that by (simp add: wf_mat_def)
    then show ?thesis using assms that by (simp add: wf_mat_def nth_list_update)
  qed
  show ?thesis using run wf nth by (intro exI [of _ ?m]) simp
qed

lemma set_masked_bad: "length msk \<noteq> nrow m \<Longrightarrow> set_masked msk k m = Inl IndexError"
  by (simp add: set_masked_def)

lemma fold_lags:
  assumes "wf_mat m" "length ts = nrow m" "\<forall>k \<in> set ks. k < ncol m"
  shows "\<exists>m'. fold_err (\<lambda>Ntp. set_masked (map (\<lambda>s. feq s (tg Ntp)) ts) Ntp) ks m = Inr m'
     \<and> wf_mat m' \<and> nrow m' = nrow m \<and> ncol m' = ncol m
     \<and> (\<forall>t < nrow m. \<forall>j < ncol m.
           rows m' ! t ! j
           = (if j \<in> set ks \<and> feq (ts ! t) (tg j) then Fin 1 else rows m ! t ! j))"
  using assms
proof (induction ks arbitrary: m)
  case Nil
  then show ?case by simp
next
  case (Cons k ks)
  have k: "k < ncol m" using Cons.prems(3) by simp
  have l: "length (map (\<lambda>s. feq s (tg k)) ts) = nrow m" using Cons.prems(2) by simp
  obtain m1 where m1: "set_masked (map (\<lambda>s. feq s (tg k)) ts) k m = Inr m1"
      "wf_mat m1" "nrow m1 = nrow m" "ncol m1 = ncol m"
    and e1: "\<forall>t < nrow m. \<forall>j < ncol m.
           rows m1 ! t ! j
           = (if map (\<lambda>s. feq s (tg k)) ts ! t \<and> j = k then Fin 1 else rows m ! t ! j)"
    using set_masked_ok [OF Cons.prems(1) l k] by blast
  have len: "length ts = nrow m1" "\<forall>k \<in> set ks. k < ncol m1"
    using Cons.prems m1 by simp_all
  obtain m' where m': "fold_err (\<lambda>Ntp. set_masked (map (\<lambda>s. feq s (tg Ntp)) ts) Ntp) ks m1 = Inr m'"
      "wf_mat m'" "nrow m' = nrow m1" "ncol m' = ncol m1"
    and e': "\<forall>t < nrow m1. \<forall>j < ncol m1.
           rows m' ! t ! j
           = (if j \<in> set ks \<and> feq (ts ! t) (tg j) then Fin 1 else rows m1 ! t ! j)"
    using Cons.IH [OF m1(2) len] by blast
  have e: "rows m' ! t ! j
           = (if j \<in> set (k # ks) \<and> feq (ts ! t) (tg j) then Fin 1 else rows m ! t ! j)"
    if "t < nrow m" "j < ncol m" for t j
    using that e1 e' m1(3,4) Cons.prems(2) by auto
  show ?case using m1 m' e by (intro exI [of _ m']) simp
qed

lemma lag_loop_props:
  assumes "wf_mat m" "length ts = nrow m" "nat (nHEst st) \<le> ncol m"
  shows "\<exists>m'. lag_loop st ts ro m = Inr m'
     \<and> wf_mat m' \<and> nrow m' = nrow m \<and> ncol m' = ncol m
     \<and> (\<forall>t < nrow m. \<forall>j < ncol m.
           rows m' ! t ! j
           = (if j < nat (nHEst st) \<and> feq (ts ! t) (target st ro j) then Fin 1
              else rows m ! t ! j))"
proof -
  have "\<forall>k \<in> set [0 ..< nat (nHEst st)]. k < ncol m" using assms(3) by simp
  from fold_lags [OF assms(1,2) this, of "target st ro"]
  show ?thesis by (simp add: lag_loop_def)
qed

lemma fold_trials:
  assumes "wf_mat m" "length ts = nrow m" "nat (nHEst st) \<le> ncol m"
  shows "\<exists>m'. fold_err (\<lambda>trial. lag_loop st ts (ros ! trial)) is m = Inr m'
     \<and> wf_mat m' \<and> nrow m' = nrow m \<and> ncol m' = ncol m
     \<and> (\<forall>t < nrow m. \<forall>j < ncol m.
           rows m' ! t ! j
           = (if j < nat (nHEst st) \<and> (\<exists>i \<in> set is. feq (ts ! t) (target st (ros ! i) j))
              then Fin 1 else rows m ! t ! j))"
  using assms
proof (induction "is" arbitrary: m)
  case Nil
  then show ?case by simp
next
  case (Cons i "is")
  obtain m1 where m1: "lag_loop st ts (ros ! i) m = Inr m1"
      "wf_mat m1" "nrow m1 = nrow m" "ncol m1 = ncol m"
    and e1: "\<forall>t < nrow m. \<forall>j < ncol m.
           rows m1 ! t ! j
           = (if j < nat (nHEst st) \<and> feq (ts ! t) (target st (ros ! i) j) then Fin 1
              else rows m ! t ! j)"
    using lag_loop_props [OF Cons.prems, where ro = "ros ! i"] by blast
  have len: "length ts = nrow m1" "nat (nHEst st) \<le> ncol m1" using Cons.prems m1 by simp_all
  obtain m' where m': "fold_err (\<lambda>trial. lag_loop st ts (ros ! trial)) is m1 = Inr m'"
      "wf_mat m'" "nrow m' = nrow m1" "ncol m' = ncol m1"
    and e': "\<forall>t < nrow m1. \<forall>j < ncol m1.
           rows m' ! t ! j
           = (if j < nat (nHEst st) \<and> (\<exists>i \<in> set is. feq (ts ! t) (target st (ros ! i) j))
              then Fin 1 else rows m1 ! t ! j)"
    using Cons.IH [OF m1(2) len] by blast
  have e: "rows m' ! t ! j
           = (if j < nat (nHEst st) \<and> (\<exists>i \<in> set (i # is). feq (ts ! t) (target st (ros ! i) j))
              then Fin 1 else rows m ! t ! j)"
    if "t < nrow m" "j < ncol m" for t j
    using that e1 e' m1(3,4) by auto
  show ?case using m1 m' e by (intro exI [of _ m']) simp
qed

lemma mat_eqI:
  assumes "wf_mat a" "wf_mat b" "nrow a = nrow b" "ncol a = ncol b"
    and "\<And>t j. t < nrow a \<Longrightarrow> j < ncol a \<Longrightarrow> rows a ! t ! j = rows b ! t ! j"
  shows "a = (b :: mat)"
proof -
  have "rows a = rows b"
  proof (rule nth_equalityI)
    show "length (rows a) = length (rows b)" using assms(1-3) by (simp add: wf_mat_def)
  next
    fix t assume t: "t < length (rows a)"
    then have ta: "t < nrow a" "t < nrow b" using assms(1,3) by (simp_all add: wf_mat_def)
    have la: "length (rows a ! t) = ncol a" using assms(1) t by (simp add: wf_mat_def)
    have "rows b ! t \<in> set (rows b)" using ta(2) assms(2) by (simp add: wf_mat_def)
    then have lb: "length (rows b ! t) = ncol b" using assms(2) by (simp add: wf_mat_def)
    show "rows a ! t = rows b ! t"
      using la lb assms(4) assms(5) [OF ta(1)] by (intro nth_equalityI) simp_all
  qed
  then show ?thesis using assms(3,4) by simp
qed

lemma wf_fir_matrix:
  "wf_mat (fir_matrix st ts ros)" "nrow (fir_matrix st ts ros) = ntps st"
  "ncol (fir_matrix st ts ros) = nat (nHEst st)"
  "t < ntps st \<Longrightarrow> k < nat (nHEst st) \<Longrightarrow>
     rows (fir_matrix st ts ros) ! t ! k
     = (if \<exists>ro \<in> set ros. feq (ts ! t) (target st ro k) then Fin 1 else Fin 0)"
  by (simp_all add: fir_matrix_def wf_mat_def)

lemma trial_loop_fits:
  assumes "length ts = ntps st"
  shows "trial_loop st ts ros (zeros (ntps st) (nat (nHEst st))) = Inr (fir_matrix st ts ros)"
proof -
  let ?Z = "zeros (ntps st) (nat (nHEst st))"
  have l: "length ts = nrow ?Z" "nat (nHEst st) \<le> ncol ?Z" using assms by (simp_all add: wf_zeros)
  obtain m' where m': "trial_loop st ts ros ?Z = Inr m'"
      "wf_mat m'" "nrow m' = ntps st" "ncol m' = nat (nHEst st)"
    and e: "\<forall>t < ntps st. \<forall>j < nat (nHEst st).
           rows m' ! t ! j
           = (if j < nat (nHEst st)
                 \<and> (\<exists>i \<in> set [0 ..< length ros]. feq (ts ! t) (target st (ros ! i) j))
              then Fin 1 else rows ?Z ! t ! j)"
    using fold_trials [OF wf_zeros(1) l, of ros "[0 ..< length ros]"]
    by (auto simp: trial_loop_def wf_zeros)
  have ex: "(\<exists>i \<in> set [0 ..< length ros]. feq (ts ! t) (target st (ros ! i) j))
      \<longleftrightarrow> (\<exists>ro \<in> set ros. feq (ts ! t) (target st ro j))" for t j
  proof
    assume "\<exists>i \<in> set [0 ..< length ros]. feq (ts ! t) (target st (ros ! i) j)"
    then obtain i where "i < length ros" "feq (ts ! t) (target st (ros ! i) j)" by auto
    then show "\<exists>ro \<in> set ros. feq (ts ! t) (target st ro j)" using nth_mem by blast
  next
    assume "\<exists>ro \<in> set ros. feq (ts ! t) (target st ro j)"
    then obtain ro where ro: "ro \<in> set ros" "feq (ts ! t) (target st ro j)" by blast
    then obtain i where "i < length ros" "ros ! i = ro" by (auto simp: in_set_conv_nth)
    with ro(2) show "\<exists>i \<in> set [0 ..< length ros]. feq (ts ! t) (target st (ros ! i) j)" by auto
  qed
  have "m' = fir_matrix st ts ros"
  proof (rule mat_eqI)
    show "wf_mat m'" by (rule m'(2))
    show "wf_mat (fir_matrix st ts ros)" by (rule wf_fir_matrix(1))
    show "nrow m' = nrow (fir_matrix st ts ros)" by (simp add: m'(3) wf_fir_matrix(2))
    show "ncol m' = ncol (fir_matrix st ts ros)" by (simp add: m'(4) wf_fir_matrix(3))
  next
    fix t j assume "t < nrow m'" "j < ncol m'"
    then have tj: "t < ntps st" "j < nat (nHEst st)" using m'(3,4) by simp_all
    show "rows m' ! t ! j = rows (fir_matrix st ts ros) ! t ! j"
      using e tj ex by (simp add: wf_fir_matrix(4) zeros_nth)
  qed
  with m'(1) show ?thesis by simp
qed

lemma fold_err_id:
  "\<forall>x \<in> set xs. \<forall>s. f x s = Inr s \<Longrightarrow> fold_err f xs s = Inr s"
  by (induction xs arbitrary: s) simp_all

lemma trial_loop_nolag:
  assumes "nat (nHEst st) = 0"
  shows "trial_loop st ts ros (zeros (ntps st) (nat (nHEst st))) = Inr (fir_matrix st ts ros)"
proof -
  have "lag_loop st ts ro m = Inr m" for ro m using assms by (simp add: lag_loop_def)
  then have "trial_loop st ts ros m = Inr m" for m
    unfolding trial_loop_def by (intro fold_err_id) simp
  moreover have "zeros (ntps st) (nat (nHEst st)) = fir_matrix st ts ros"
    using assms by (simp add: zeros_def fir_matrix_def map_replicate_const)
  ultimately show ?thesis by simp
qed

lemma trial_loop_bad:
  assumes "length ts \<noteq> nrow m" "0 < nat (nHEst st)" "ros \<noteq> []"
  shows "trial_loop st ts ros m = Inl IndexError"
proof -
  have 1: "[0 ..< length ros] = 0 # [1 ..< length ros]"
    using assms(3) by (simp add: upt_conv_Cons)
  have 2: "[0 ..< nat (nHEst st)] = 0 # [1 ..< nat (nHEst st)]"
    using assms(2) by (simp add: upt_conv_Cons)
  have "lag_loop st ts ro m = Inl IndexError" for ro
    unfolding lag_loop_def 2 using assms(1) by (simp add: set_masked_bad)
  then show ?thesis unfolding trial_loop_def 1 by simp
qed

lemma rounded_onsets_set:
  "set (rounded_onsets st code)
   = (\<lambda>p. fmul (frint (fdiv (fst p) (ER st))) (ER st))
       ` {p \<in> set (zip (event_timing st) (event_number st)). snd p = code}"
  by (auto simp: rounded_onsets_def image_iff)

lemma zip_events:
  "set (zip (map (\<lambda>ev. rd (f0 ev)) cnd) (map f1 cnd)) = (\<lambda>ev. (rd (f0 ev), f1 ev)) ` set cnd"
  by (induction cnd) auto

lemma event_exists:
  assumes "event_timing st = map (\<lambda>ev. rd (f0 ev)) cnd" "event_number st = map f1 cnd"
  shows "(\<exists>ro \<in> set (rounded_onsets st code). P ro)
    \<longleftrightarrow> (\<exists>ev \<in> set cnd. f1 ev = code \<and> P (fmul (frint (fdiv (rd (f0 ev)) (ER st))) (ER st)))"
  unfolding rounded_onsets_set assms zip_events by auto

lemma rounded_onsets_length:
  assumes "event_timing st = map (\<lambda>ev. rd (f0 ev)) cnd" "event_number st = map f1 cnd"
  shows "length (rounded_onsets st code) = length (filter (\<lambda>ev. f1 ev = code) cnd)"
  unfolding rounded_onsets_def assms by (induction cnd) auto

lemma target_frame:
  "target (st\<lparr>cond := cl\<rparr>) = target st" "target (st\<lparr>model := M\<rparr>) = target st"
  by (simp_all add: target_def fun_eq_iff)

lemma lag_loop_frame:
  "lag_loop (st\<lparr>cond := cl\<rparr>) = lag_loop st" "lag_loop (st\<lparr>model := M\<rparr>) = lag_loop st"
  by (simp_all add: lag_loop_def target_frame fun_eq_iff)

lemma frame_simps:
  "trScale (st\<lparr>cond := cl\<rparr>) = trScale st" "trScale (st\<lparr>model := M\<rparr>) = trScale st"
  "trial_loop (st\<lparr>cond := cl\<rparr>) = trial_loop st" "trial_loop (st\<lparr>model := M\<rparr>) = trial_loop st"
  "rounded_onsets (st\<lparr>cond := cl\<rparr>) = rounded_onsets st"
  "rounded_onsets (st\<lparr>model := M\<rparr>) = rounded_onsets st"
  by (simp_all add: trScale_def trial_loop_def lag_loop_frame rounded_onsets_def fun_eq_iff)

lemma trE_of_props:
  "wf_mat (trE_of st ts c)" "nrow (trE_of st ts c) = ntps st"
  "ncol (trE_of st ts c) = nat (nHEst st)"
  "t < ntps st \<Longrightarrow> k < nat (nHEst st) \<Longrightarrow>
     rows (trE_of st ts c) ! t ! k
     = (if \<exists>ro \<in> set (rounded_onsets st (c_codes st ! c)). feq (ts ! t) (target st ro k)
        then Fin 1 else Fin 0)"
  by (simp_all add: trE_of_def wf_fir_matrix)

lemma fir_cond_step:
  assumes ts: "trScale st = Inr ts" and fit: "length ts = ntps st \<or> nat (nHEst st) = 0"
    and c: "c < length (c_codes st)" "c < length cl" "c < dim2 T"
    and d: "dim0 T = ntps st" "dim1 T = nat (nHEst st)"
  shows "fir_cond c (st\<lparr>cond := cl, model := Some T\<rparr>)
    = (st\<lparr>cond := cl[c := (cl ! c)\<lparr>cond_model := Some (trE_of st ts c)\<rparr>],
          model := Some (assign_slice2 T c (trE_of st ts c))\<rparr>, None)"
proof -
  have loop: "trial_loop st ts (rounded_onsets st (c_codes st ! c)) (zeros (ntps st) (nat (nHEst st)))
      = Inr (trE_of st ts c)"
    using fit trial_loop_fits trial_loop_nolag by (auto simp: trE_of_def)
  show ?thesis
    using ts c d loop by (simp add: fir_cond_def frame_simps Let_def trE_of_props(2,3))
qed

lemma assign_slice2_dims:
  "dim0 (assign_slice2 T c m) = dim0 T" "dim1 (assign_slice2 T c m) = dim1 T"
  "dim2 (assign_slice2 T c m) = dim2 T"
  by (simp_all add: assign_slice2_def)

lemma fir_loop:
  assumes ts: "trScale st = Inr ts" and fit: "length ts = ntps st \<or> nat (nHEst st) = 0"
    and cs: "\<forall>c \<in> set cs. c < length (c_codes st) \<and> c < length cl \<and> c < dim2 T"
    and d: "dim0 T = ntps st" "dim1 T = nat (nHEst st)"
  shows "for_loop fir_cond cs (st\<lparr>cond := cl, model := Some T\<rparr>)
    = (st\<lparr>cond := fold (\<lambda>c l. l[c := (l ! c)\<lparr>cond_model := Some (trE_of st ts c)\<rparr>]) cs cl,
          model := Some (fold (\<lambda>c T. assign_slice2 T c (trE_of st ts c)) cs T)\<rparr>, None)"
  using cs d
proof (induction cs arbitrary: cl T)
  case Nil
  then show ?case by simp
next
  case (Cons c cs)
  have step: "fir_cond c (st\<lparr>cond := cl, model := Some T\<rparr>)
    = (st\<lparr>cond := cl[c := (cl ! c)\<lparr>cond_model := Some (trE_of st ts c)\<rparr>],
          model := Some (assign_slice2 T c (trE_of st ts c))\<rparr>, None)"
    using Cons.prems by (intro fir_cond_step [OF ts fit]) simp_all
  have "for_loop fir_cond cs
          (st\<lparr>cond := cl[c := (cl ! c)\<lparr>cond_model := Some (trE_of st ts c)\<rparr>],
              model := Some (assign_slice2 T c (trE_of st ts c))\<rparr>)
    = (st\<lparr>cond := fold (\<lambda>c l. l[c := (l ! c)\<lparr>cond_model := Some (trE_of st ts c)\<rparr>]) cs
                      (cl[c := (cl ! c)\<lparr>cond_model := Some (trE_of st ts c)\<rparr>]),
          model := Some (fold (\<lambda>c T. assign_slice2 T c (trE_of st ts c)) cs
                      (assign_slice2 T c (trE_of st ts c)))\<rparr>, None)"
    using Cons.prems by (intro Cons.IH) (simp_all add: assign_slice2_dims)
  with step show ?case by simp
qed

lemma fold_cond_length:
  "length (fold (\<lambda>c l. l[c := (l ! c)\<lparr>cond_model := Some (E c)\<rparr>]) cs (cl :: condition list))
     = length cl"
  by (induction cs arbitrary: cl) simp_all

lemma fold_cond_model:
  "i < length (cl :: condition list) \<Longrightarrow>
     cond_model (fold (\<lambda>c l. l[c := (l ! c)\<lparr>cond_model := Some (E c)\<rparr>]) cs cl ! i)
       = (if i \<in> set cs then Some (E i) else cond_model (cl ! i))"
  by (induction cs arbitrary: cl) (auto simp: nth_list_update)

lemma upd_cond_other:
  assumes "i < length (cl :: condition list)"
  shows "label (cl[a := (cl ! a)\<lparr>cond_model := v\<rparr>] ! i) = label (cl ! i)"
    and "FIR_hrf (cl[a := (cl ! a)\<lparr>cond_model := v\<rparr>] ! i) = FIR_hrf (cl ! i)"
    and "average_hrf (cl[a := (cl ! a)\<lparr>cond_model := v\<rparr>] ! i) = average_hrf (cl ! i)"
  using assms by (cases "a < length cl"; auto simp: nth_list_update list_update_beyond)+

lemma fold_cond_other:
  assumes "i < length (cl :: condition list)"
  shows "label (fold (\<lambda>c l. l[c := (l ! c)\<lparr>cond_model := Some (E c)\<rparr>]) cs cl ! i) = label (cl ! i)"
    and "FIR_hrf (fold (\<lambda>c l. l[c := (l ! c)\<lparr>cond_model := Some (E c)\<rparr>]) cs cl ! i)
           = FIR_hrf (cl ! i)"
    and "average_hrf (fold (\<lambda>c l. l[c := (l ! c)\<lparr>cond_model := Some (E c)\<rparr>]) cs cl ! i)
           = average_hrf (cl ! i)"
  using assms by (induction cs arbitrary: cl) (simp_all add: upd_cond_other)

lemma wf_zeros3: "wf_tensor (zeros3 a b c)"
  "dim0 (zeros3 a b c) = a" "dim1 (zeros3 a b c) = b" "dim2 (zeros3 a b c) = c"
  by (simp_all add: wf_tensor_def zeros3_def)

lemma wf_assign_slice2:
  assumes "wf_tensor T" "wf_mat m" "nrow m = dim0 T" "ncol m = dim1 T"
  shows "wf_tensor (assign_slice2 T c m)"
  using assms
  by (auto simp: wf_tensor_def wf_mat_def assign_slice2_def set_zip all_set_conv_all_nth)

lemma map2_update_nth:
  assumes "length plane = length r" "\<forall>cell \<in> set plane. c < length cell"
  shows "map (\<lambda>cell. cell ! c') (map2 (\<lambda>cell v. cell[c := v]) plane r)
    = (if c' = c then r else map (\<lambda>cell. cell ! c') plane)"
  using assms by (induction plane r rule: list_induct2) auto

lemma map2_map2_update_nth:
  assumes "length ps = length rs"
    and "\<forall>i < length ps. length (ps ! i) = length (rs ! i) \<and> (\<forall>cell \<in> set (ps ! i). c < length cell)"
  shows "map (map (\<lambda>cell. cell ! c')) (map2 (\<lambda>plane r. map2 (\<lambda>cell v. cell[c := v]) plane r) ps rs)
    = (if c' = c then rs else map (map (\<lambda>cell. cell ! c')) ps)"
proof (rule nth_equalityI)
  show "length (map (map (\<lambda>cell. cell ! c')) (map2 (\<lambda>plane r. map2 (\<lambda>cell v. cell[c := v]) plane r) ps rs))
    = length (if c' = c then rs else map (map (\<lambda>cell. cell ! c')) ps)"
    using assms(1) by simp
next
  fix i
  assume "i < length (map (map (\<lambda>cell. cell ! c'))
             (map2 (\<lambda>plane r. map2 (\<lambda>cell v. cell[c := v]) plane r) ps rs))"
  then have i: "i < length ps" "i < length rs" using assms(1) by simp_all
  have p: "length (ps ! i) = length (rs ! i)" "\<forall>cell \<in> set (ps ! i). c < length cell"
    using assms(2) i by simp_all
  show "map (map (\<lambda>cell. cell ! c')) (map2 (\<lambda>plane r. map2 (\<lambda>cell v. cell[c := v]) plane r) ps rs) ! i
    = (if c' = c then rs else map (map (\<lambda>cell. cell ! c')) ps) ! i"
    using i map2_update_nth [OF p, of c'] by simp
qed

lemma slice2_assign:
  assumes wf: "wf_tensor T" "wf_mat m" and sh: "nrow m = dim0 T" "ncol m = dim1 T" and c: "c < dim2 T"
  shows "slice2 (assign_slice2 T c m) c' = (if c' = c then m else slice2 T c')"
proof -
  have len: "length (cells T) = length (rows m)" using wf sh by (simp add: wf_tensor_def wf_mat_def)
  have each: "\<forall>i < length (cells T). length (cells T ! i) = length (rows m ! i)
      \<and> (\<forall>cell \<in> set (cells T ! i). c < length cell)"
  proof (intro allI impI)
    fix i assume i: "i < length (cells T)"
    then have "cells T ! i \<in> set (cells T)" "rows m ! i \<in> set (rows m)"
      using len by simp_all
    then show "length (cells T ! i) = length (rows m ! i)
      \<and> (\<forall>cell \<in> set (cells T ! i). c < length cell)"
      using wf sh c by (simp add: wf_tensor_def wf_mat_def)
  qed
  show ?thesis
    using map2_map2_update_nth [OF len each, of c'] sh wf
    by (simp add: slice2_def assign_slice2_def wf_mat_def)
qed

lemma fold_assign:
  assumes "wf_tensor T" "\<forall>c \<in> set cs. wf_mat (E c) \<and> nrow (E c) = dim0 T \<and> ncol (E c) = dim1 T \<and> c < dim2 T"
  shows "wf_tensor (fold (\<lambda>c T. assign_slice2 T c (E c)) cs T)
    \<and> dim0 (fold (\<lambda>c T. assign_slice2 T c (E c)) cs T) = dim0 T
    \<and> dim1 (fold (\<lambda>c T. assign_slice2 T c (E c)) cs T) = dim1 T
    \<and> dim2 (fold (\<lambda>c T. assign_slice2 T c (E c)) cs T) = dim2 T
    \<and> slice2 (fold (\<lambda>c T. assign_slice2 T c (E c)) cs T) c'
        = (if c' \<in> set cs then E c' else slice2 T c')"
  using assms
proof (induction cs arbitrary: T)
  case Nil
  then show ?case by simp
next
  case (Cons c cs)
  let ?T = "assign_slice2 T c (E c)"
  have wf: "wf_tensor ?T" using Cons.prems by (intro wf_assign_slice2) simp_all
  have rest: "\<forall>c \<in> set cs. wf_mat (E c) \<and> nrow (E c) = dim0 ?T \<and> ncol (E c) = dim1 ?T \<and> c < dim2 ?T"
    using Cons.prems by (simp add: assign_slice2_dims)
  have sl: "slice2 ?T c' = (if c' = c then E c else slice2 T c')"
    using Cons.prems by (intro slice2_assign) simp_all
  show ?case using Cons.IH [OF wf rest] sl by (auto simp: assign_slice2_dims)
qed

lemma getFIRmodel_built:
  assumes ts: "trScale st = Inr ts" and fit: "length ts = ntps st \<or> nat (nHEst st) = 0"
    and nh: "0 \<le> nHEst st"
    and n: "nconds st = length (c_codes st)" "length (cond st) = length (c_codes st)"
  shows "\<exists>cl T. getFIRmodel st = (st\<lparr>cond := cl, model := Some T\<rparr>, None)
     \<and> length cl = nconds st
     \<and> (\<forall>c < nconds st. cond_model (cl ! c) = Some (trE_of st ts c)
           \<and> label (cl ! c) = label (cond st ! c)
           \<and> FIR_hrf (cl ! c) = FIR_hrf (cond st ! c)
           \<and> average_hrf (cl ! c) = average_hrf (cond st ! c)
           \<and> slice2 T c = trE_of st ts c)
     \<and> wf_tensor T \<and> dim0 T = ntps st \<and> dim1 T = nat (nHEst st) \<and> dim2 T = nconds st"
proof -
  let ?E = "trE_of st ts"
  let ?Z = "zeros3 (ntps st) (nat (nHEst st)) (nconds st)"
  let ?cl = "fold (\<lambda>c l. l[c := (l ! c)\<lparr>cond_model := Some (?E c)\<rparr>]) [0 ..< nconds st] (cond st)"
  let ?T = "fold (\<lambda>c T. assign_slice2 T c (?E c)) [0 ..< nconds st] ?Z"
  have cs: "\<forall>c \<in> set [0 ..< nconds st]. c < length (c_codes st) \<and> c < length (cond st) \<and> c < dim2 ?Z"
    using n by (simp add: wf_zeros3)
  have "for_loop fir_cond [0 ..< nconds st] (st\<lparr>cond := cond st, model := Some ?Z\<rparr>)
      = (st\<lparr>cond := ?cl, model := Some ?T\<rparr>, None)"
    using cs by (intro fir_loop [OF ts fit]) (simp_all add: wf_zeros3)
  then have run: "getFIRmodel st = (st\<lparr>cond := ?cl, model := Some ?T\<rparr>, None)"
    using nh by (simp add: getFIRmodel_def)
  have E: "\<forall>c \<in> set [0 ..< nconds st]. wf_mat (?E c) \<and> nrow (?E c) = dim0 ?Z
      \<and> ncol (?E c) = dim1 ?Z \<and> c < dim2 ?Z"
    by (simp add: trE_of_props wf_zeros3)
  note fa = fold_assign [OF wf_zeros3(1) E]
  have len: "length ?cl = nconds st" using n by (simp add: fold_cond_length)
  have each: "cond_model (?cl ! c) = Some (?E c) \<and> label (?cl ! c) = label (cond st ! c)
           \<and> FIR_hrf (?cl ! c) = FIR_hrf (cond st ! c)
           \<and> average_hrf (?cl ! c) = average_hrf (cond st ! c)
           \<and> slice2 ?T c = ?E c" if "c < nconds st" for c
  proof -
    have c: "c < length (cond st)" using that n by simp
    show ?thesis
      using fold_cond_model [OF c, of ?E "[0 ..< nconds st]"]
        fold_cond_other [OF c, of ?E "[0 ..< nconds st]"] fa [of c] that
      by simp
  qed
  have T: "wf_tensor ?T" "dim0 ?T = ntps st" "dim1 ?T = nat (nHEst st)" "dim2 ?T = nconds st"
    using fa [of 0] by (simp_all add: wf_zeros3)
  show ?thesis using run len each T by blast
qed

lemma getFIRmodel_first:
  assumes "0 < nconds st" "0 \<le> nHEst st"
    and "snd (fir_cond 0 (st\<lparr>model := Some (zeros3 (ntps st) (nat (nHEst st)) (nconds st))\<rparr>)) = Some e"
  shows "snd (getFIRmodel st) = Some e"
proof -
  have 1: "[0 ..< nconds st] = 0 # [1 ..< nconds st]" using assms(1) by (simp add: upt_conv_Cons)
  obtain s where "fir_cond 0 (st\<lparr>model := Some (zeros3 (ntps st) (nat (nHEst st)) (nconds st))\<rparr>)
      = (s, Some e)"
    using assms(3) by (cases "fir_cond 0 (st\<lparr>model := Some (zeros3 (ntps st) (nat (nHEst st)) (nconds st))\<rparr>)") auto
  then show ?thesis using assms(2) unfolding getFIRmodel_def 1 by simp
qed

lemma fir_cond_raises:
  assumes "0 < length (c_codes st)"
  shows "trScale st = Inl e \<Longrightarrow> snd (fir_cond 0 (st\<lparr>model := M\<rparr>)) = Some e"
    and "trScale st = Inr ts \<Longrightarrow> length ts \<noteq> ntps st \<Longrightarrow> 0 < nat (nHEst st) \<Longrightarrow>
         rounded_onsets st (c_codes st ! 0) \<noteq> [] \<Longrightarrow>
         snd (fir_cond 0 (st\<lparr>model := M\<rparr>)) = Some IndexError"
proof -
  show "snd (fir_cond 0 (st\<lparr>model := M\<rparr>)) = Some e" if "trScale st = Inl e"
    using that assms by (simp add: fir_cond_def frame_simps Let_def)
  show "snd (fir_cond 0 (st\<lparr>model := M\<rparr>)) = Some IndexError"
    if "trScale st = Inr ts" "length ts \<noteq> ntps st" "0 < nat (nHEst st)"
      "rounded_onsets st (c_codes st ! 0) \<noteq> []"
  proof -
    have "length ts \<noteq> nrow (zeros (ntps st) (nat (nHEst st)))" using that(2) by (simp add: wf_zeros)
    from trial_loop_bad [OF this that(3,4)] show ?thesis
      using that(1) assms by (simp add: fir_cond_def frame_simps Let_def)
  qed
qed

text \<open>When the build returns, for an object the constructor made.\<close>

lemma getFIRmodel_returns:
  assumes ok: "init tsData cnd tr er_opt window = Inr (st, out)"
  shows "(\<exists>st'. getFIRmodel st = (st', None))
    \<longleftrightarrow> 0 \<le> nHEst st \<and> (\<exists>ts. trScale st = Inr ts \<and> (length ts = ntps st \<or> nHEst st = 0))"
proof
  assume "0 \<le> nHEst st \<and> (\<exists>ts. trScale st = Inr ts \<and> (length ts = ntps st \<or> nHEst st = 0))"
  then obtain ts where nh: "0 \<le> nHEst st" and ts: "trScale st = Inr ts"
    and fit: "length ts = ntps st \<or> nat (nHEst st) = 0" by auto
  from getFIRmodel_built [OF ts fit nh init_conditions(1,2) [OF ok]]
  show "\<exists>st'. getFIRmodel st = (st', None)" by blast
next
  assume "\<exists>st'. getFIRmodel st = (st', None)"
  then have none: "snd (getFIRmodel st) = None" by auto
  note f = init_fields [OF ok] and n = init_conditions [OF ok]
  have nh: "0 \<le> nHEst st"
  proof (rule ccontr)
    assume "\<not> 0 \<le> nHEst st"
    then have "snd (getFIRmodel st) = Some ValueError" by (simp add: getFIRmodel_def)
    with none show False by simp
  qed
  have c0: "0 < length (c_codes st)" using n(1,3) by simp
  have ros: "rounded_onsets st (c_codes st ! 0) \<noteq> []"
  proof -
    obtain ev where "ev \<in> set cnd" "f1 ev = c_codes st ! 0" using n(5) [OF n(3)] by blast
    then have "filter (\<lambda>ev. f1 ev = c_codes st ! 0) cnd \<noteq> []" by (auto simp: filter_empty_conv)
    then show ?thesis using rounded_onsets_length [OF f(11,12), of "c_codes st ! 0"] by auto
  qed
  show "0 \<le> nHEst st \<and> (\<exists>ts. trScale st = Inr ts \<and> (length ts = ntps st \<or> nHEst st = 0))"
  proof (cases "trScale st")
    case (Inl e)
    from getFIRmodel_first [OF n(3) nh fir_cond_raises(1) [OF c0 Inl]] none show ?thesis by simp
  next
    case (Inr ts)
    show ?thesis
    proof (cases "length ts = ntps st \<or> nHEst st = 0")
      case True
      with nh Inr show ?thesis by simp
    next
      case False
      with nh have b: "length ts \<noteq> ntps st" "0 < nat (nHEst st)" by simp_all
      from getFIRmodel_first [OF n(3) nh fir_cond_raises(2) [OF c0 Inr b ros]] none
      show ?thesis by simp
    qed
  qed
qed

lemma init_built:
  assumes ok: "init tsData cnd tr er_opt window = Inr (st, out)"
    and built: "getFIRmodel st = (st1, None)"
  shows "\<exists>ts cl T. trScale st = Inr ts \<and> (length ts = ntps st \<or> nat (nHEst st) = 0)
     \<and> 0 \<le> nHEst st \<and> st1 = st\<lparr>cond := cl, model := Some T\<rparr>
     \<and> length cl = nconds st
     \<and> (\<forall>c < nconds st. cond_model (cl ! c) = Some (trE_of st ts c)
           \<and> label (cl ! c) = label (cond st ! c)
           \<and> FIR_hrf (cl ! c) = None \<and> average_hrf (cl ! c) = None
           \<and> slice2 T c = trE_of st ts c)
     \<and> wf_tensor T \<and> dim0 T = ntps st \<and> dim1 T = nat (nHEst st) \<and> dim2 T = nconds st"
proof -
  note n = init_conditions [OF ok]
  from built getFIRmodel_returns [OF ok]
  obtain ts where nh: "0 \<le> nHEst st" and ts: "trScale st = Inr ts"
    and fit: "length ts = ntps st \<or> nat (nHEst st) = 0" by auto
  obtain cl T where run: "getFIRmodel st = (st\<lparr>cond := cl, model := Some T\<rparr>, None)"
    and rest: "length cl = nconds st"
      "\<forall>c < nconds st. cond_model (cl ! c) = Some (trE_of st ts c)
           \<and> label (cl ! c) = label (cond st ! c)
           \<and> FIR_hrf (cl ! c) = FIR_hrf (cond st ! c)
           \<and> average_hrf (cl ! c) = average_hrf (cond st ! c)
           \<and> slice2 T c = trE_of st ts c"
      "wf_tensor T" "dim0 T = ntps st" "dim1 T = nat (nHEst st)" "dim2 T = nconds st"
    using getFIRmodel_built [OF ts fit nh n(1,2)] by blast
  have st1: "st1 = st\<lparr>cond := cl, model := Some T\<rparr>" using run built by simp
  show ?thesis using ts fit nh st1 rest n(4) by (intro exI [of _ ts] exI [of _ cl] exI [of _ T]) simp
qed

text \<open>The acquisition times of line 146 are the times the specification writes.\<close>

lemma is_double_rd: "is_double (rd x)"
  by (cases "rd x") (simp_all add: rd_idem)

lemma is_double_fmul: "is_double (fmul a b)"
  by (cases a; cases b) (simp_all add: is_double_rd)

lemma fadd_zero: "is_double y \<Longrightarrow> fadd (Fin 0) y = y"
  by (cases y) simp_all

lemma fl_of_nat_01: "fl_of_nat 0 = Fin 0" "fl_of_nat 1 = Fin 1" "fl_of_nat (Suc 0) = Fin 1"
  using rd_nat [of 0] rd_nat [of 1] by (simp_all add: fl_of_nat_def)

lemma trScale_finite_TR:
  assumes "trScale st = Inr ts"
  shows "\<exists>x. TR st = Fin x \<and> x \<noteq> 0"
proof (cases "TR st")
  case (Fin x)
  with assms show ?thesis
    by (auto simp: trScale_def arange_def arange_len_def split: sum.splits if_splits)
next
  case PInf
  with assms show ?thesis
    by (cases "fl_of_nat (ntps st)")
       (auto simp: trScale_def arange_def arange_len_def fsub_def split: sum.splits if_splits)
next
  case NInf
  with assms show ?thesis
    by (cases "fl_of_nat (ntps st)")
       (auto simp: trScale_def arange_def arange_len_def fsub_def split: sum.splits if_splits)
next
  case NaN
  with assms show ?thesis
    by (cases "fl_of_nat (ntps st)")
       (auto simp: trScale_def arange_def arange_len_def fsub_def split: sum.splits if_splits)
qed

lemma arange_zero_nth:
  assumes "arange (Fin 0) stop (Fin x) = Inr xs" "rd x = Fin x" "t < length xs"
  shows "xs ! t = fmul (fl_of_nat t) (Fin x)"
proof -
  obtain n where n: "arange_len (Fin 0) stop (Fin x) = Inr n"
    using assms(1) by (cases "arange_len (Fin 0) stop (Fin x)") (simp_all add: arange_def)
  have xs: "xs = map (\<lambda>i. if i = 0 then Fin 0 else if i = 1 then Fin x
                            else fadd (Fin 0) (fmul (fl_of_nat i) (Fin x))) [0 ..< n]"
    using assms(1,2) n by (auto simp: arange_def Let_def fsub_def)
  have t: "t < n" using assms(3) xs by simp
  consider "t = 0" | "t = 1" | "2 \<le> t" by linarith
  then show ?thesis
  proof cases
    case 1
    then show ?thesis using t xs by (simp add: fl_of_nat_01 rd_0)
  next
    case 2
    have "fmul (fl_of_nat 1) (Fin x) = Fin x" using assms(2) by (simp add: fl_of_nat_01)
    then show ?thesis using 2 t xs by simp
  next
    case 3
    then show ?thesis using t xs by (simp add: fadd_zero is_double_fmul)
  qed
qed

lemma trScale_nth:
  assumes ts: "trScale st = Inr ts" and d: "is_double (TR st)" and t: "t < length ts"
  shows "ts ! t = acq_time st t"
proof -
  obtain x where x: "TR st = Fin x" using trScale_finite_TR [OF ts] by blast
  with d have r: "rd x = Fin x" by simp
  obtain xs where xs: "arange (Fin 0) (fmul (fl_of_nat (ntps st)) (Fin x)) (Fin x) = Inr xs"
    and m: "ts = map (\<lambda>x. fdiv (ffix (fmul x (Fin 10000))) (Fin 10000)) xs"
    using ts x by (auto simp: trScale_def split: sum.splits)
  have "t < length xs" using t m by simp
  from arange_zero_nth [OF xs r this] show ?thesis
    using m \<open>t < length xs\<close> by (simp add: acq_time_def x)
qed

lemma trScale_acq:
  assumes ok: "init tsData cnd tr er_opt window = Inr (st, out)"
    and ts: "trScale st = Inr ts" and len: "length ts = ntps st"
  shows "ts = acq_times st"
proof -
  have d: "is_double (TR st)" by (simp add: init_fields(3) [OF ok] is_double_rd)
  show ?thesis
    using len trScale_nth [OF ts d] by (intro nth_equalityI) (simp_all add: acq_times_def)
qed

text \<open>
  Claim C1. For an object the constructor made, \<open>getFIRmodel\<close> returns without an
  exception exactly when \<open>nHEst\<close> is not negative and the acquisition time scale of line
  146 exists and has one time for each sample (or there is no lag at all); otherwise
  line 134, 146 or 151 raises. When it returns, the matrix stored for every condition
  \<open>c\<close> has the shape \<open>ntps \<times> nHEst\<close>, and its entry \<open>[t, k]\<close> is 1 exactly when some event
  of the code of \<open>c\<close> has \<open>fix(t * TR * 1e4) / 1e4\<close> equal to
  \<open>round((rounded_onset + (k - nPreStim) * ER) * 1e4) / 1e4\<close>, where
  \<open>rounded_onset = round(onset / ER) * ER\<close>, all of them computed and compared as floats;
  every other entry is 0.
\<close>

theorem fir_model_entries:
  assumes ok: "init tsData cnd tr er_opt window = Inr (st, out)"
  shows "((\<exists>st'. getFIRmodel st = (st', None))
          \<longleftrightarrow> 0 \<le> nHEst st
              \<and> (\<exists>ts. trScale st = Inr ts \<and> (length ts = ntps st \<or> nHEst st = 0)))
     \<and> (\<forall>st'. getFIRmodel st = (st', None) \<longrightarrow>
          length (cond st') = nconds st
          \<and> (\<forall>c < nconds st. \<exists>trE. cond_model (cond st' ! c) = Some trE
               \<and> nrow trE = ntps st \<and> ncol trE = nat (nHEst st) \<and> wf_mat trE
               \<and> (\<forall>t < ntps st. \<forall>k < nat (nHEst st).
                     rows trE ! t ! k
                     = (if \<exists>ev \<in> set cnd. f1 ev = c_codes st ! c
                             \<and> feq (fdiv (ffix (fmul (fmul (fl_of_nat t) (TR st)) (Fin 10000)))
                                          (Fin 10000))
                                    (fdiv (frint (fmul
                                       (fadd (fmul (frint (fdiv (rd (f0 ev)) (ER st))) (ER st))
                                             (fmul (fsub (fl_of_nat k) (nPreStim st)) (ER st)))
                                       (Fin 10000))) (Fin 10000))
                        then Fin 1 else Fin 0))))"
proof (intro conjI allI impI)
  show "(\<exists>st'. getFIRmodel st = (st', None))
          \<longleftrightarrow> 0 \<le> nHEst st
              \<and> (\<exists>ts. trScale st = Inr ts \<and> (length ts = ntps st \<or> nHEst st = 0))"
    by (rule getFIRmodel_returns [OF ok])
next
  fix st' assume built: "getFIRmodel st = (st', None)"
  note f = init_fields [OF ok]
  obtain ts cl T where ts: "trScale st = Inr ts"
    and fit: "length ts = ntps st \<or> nat (nHEst st) = 0"
    and st': "st' = st\<lparr>cond := cl, model := Some T\<rparr>"
    and len: "length cl = nconds st"
    and each: "\<forall>c < nconds st. cond_model (cl ! c) = Some (trE_of st ts c)"
    using init_built [OF ok built] by blast
  show "length (cond st') = nconds st" using st' len by simp
  fix c assume c: "c < nconds st"
  have entry: "rows (trE_of st ts c) ! t ! k
                     = (if \<exists>ev \<in> set cnd. f1 ev = c_codes st ! c
                             \<and> feq (fdiv (ffix (fmul (fmul (fl_of_nat t) (TR st)) (Fin 10000)))
                                          (Fin 10000))
                                    (fdiv (frint (fmul
                                       (fadd (fmul (frint (fdiv (rd (f0 ev)) (ER st))) (ER st))
                                             (fmul (fsub (fl_of_nat k) (nPreStim st)) (ER st)))
                                       (Fin 10000))) (Fin 10000))
                        then Fin 1 else Fin 0)"
    if tk: "t < ntps st" "k < nat (nHEst st)" for t k
  proof -
    have l: "length ts = ntps st" using fit tk(2) by auto
    have "ts ! t = acq_time st t" using trScale_acq [OF ok ts l] tk(1) by (simp add: acq_times_def)
    then show ?thesis
      unfolding trE_of_props(4) [OF tk] event_exists [OF f(11,12)]
      by (simp add: acq_time_def target_def)
  qed
  show "\<exists>trE. cond_model (cond st' ! c) = Some trE
               \<and> nrow trE = ntps st \<and> ncol trE = nat (nHEst st) \<and> wf_mat trE
               \<and> (\<forall>t < ntps st. \<forall>k < nat (nHEst st).
                     rows trE ! t ! k
                     = (if \<exists>ev \<in> set cnd. f1 ev = c_codes st ! c
                             \<and> feq (fdiv (ffix (fmul (fmul (fl_of_nat t) (TR st)) (Fin 10000)))
                                          (Fin 10000))
                                    (fdiv (frint (fmul
                                       (fadd (fmul (frint (fdiv (rd (f0 ev)) (ER st))) (ER st))
                                             (fmul (fsub (fl_of_nat k) (nPreStim st)) (ER st)))
                                       (Fin 10000))) (Fin 10000))
                        then Fin 1 else Fin 0))"
    using each c entry st' by (intro exI [of _ "trE_of st ts c"]) (simp add: trE_of_props)
qed

lemma example_model:
  "snd (getFIRmodel example_state) = None
   \<and> map (map_option rows \<circ> cond_model) (cond (fst (getFIRmodel example_state)))
   = [Some [[Fin 0, Fin 0, Fin 0, Fin 0], [Fin 0, Fin 0, Fin 0, Fin 0],
            [Fin 1, Fin 0, Fin 0, Fin 0], [Fin 0, Fin 1, Fin 0, Fin 0],
            [Fin 0, Fin 0, Fin 1, Fin 0], [Fin 0, Fin 0, Fin 0, Fin 1],
            [Fin 0, Fin 0, Fin 0, Fin 0], [Fin 0, Fin 0, Fin 0, Fin 0]],
      Some [[Fin 1, Fin 0, Fin 0, Fin 0], [Fin 0, Fin 1, Fin 0, Fin 0],
            [Fin 0, Fin 0, Fin 1, Fin 0], [Fin 0, Fin 0, Fin 0, Fin 1],
            [Fin 0, Fin 0, Fin 0, Fin 0], [Fin 0, Fin 0, Fin 0, Fin 0],
            [Fin 0, Fin 0, Fin 0, Fin 0], [Fin 0, Fin 0, Fin 0, Fin 0]]]"
  by code_simp

lemma example_built: "\<exists>st1. getFIRmodel example_state = (st1, None)"
  using example_model by (cases "getFIRmodel example_state") auto

theorem fir_model_entries_witness:
  "(\<exists>st'. getFIRmodel example_state = (st', None) \<and> length (cond st') = nconds example_state)
   \<and> 0 \<le> nHEst example_state
   \<and> (\<exists>ts. trScale example_state = Inr ts
         \<and> (length ts = ntps example_state \<or> nHEst example_state = 0))
   \<and> map (map_option rows \<circ> cond_model) (cond (fst (getFIRmodel example_state)))
   = [Some [[Fin 0, Fin 0, Fin 0, Fin 0], [Fin 0, Fin 0, Fin 0, Fin 0],
            [Fin 1, Fin 0, Fin 0, Fin 0], [Fin 0, Fin 1, Fin 0, Fin 0],
            [Fin 0, Fin 0, Fin 1, Fin 0], [Fin 0, Fin 0, Fin 0, Fin 1],
            [Fin 0, Fin 0, Fin 0, Fin 0], [Fin 0, Fin 0, Fin 0, Fin 0]],
      Some [[Fin 1, Fin 0, Fin 0, Fin 0], [Fin 0, Fin 1, Fin 0, Fin 0],
            [Fin 0, Fin 0, Fin 1, Fin 0], [Fin 0, Fin 0, Fin 0, Fin 1],
            [Fin 0, Fin 0, Fin 0, Fin 0], [Fin 0, Fin 0, Fin 0, Fin 0],
            [Fin 0, Fin 0, Fin 0, Fin 0], [Fin 0, Fin 0, Fin 0, Fin 0]]]"
proof -
  obtain st1 where b: "getFIRmodel example_state = (st1, None)" using example_built by blast
  note th = fir_model_entries [OF example_state_init]
  from th b have 1: "length (cond st1) = nconds example_state" by blast
  from th b have 2: "0 \<le> nHEst example_state
     \<and> (\<exists>ts. trScale example_state = Inr ts
           \<and> (length ts = ntps example_state \<or> nHEst example_state = 0))" by blast
  from b 1 2 example_model show ?thesis by blast
qed

text \<open>Three samples at \<open>TR = 0.1\<close>: the float \<open>3 * 0.1\<close> lies above 0.3, so that
  \<^verbatim>\<open>np.arange(0, 3*0.1, 0.1)\<close> has four values, the mask of line 151 has four entries
  for three rows, and the build raises \<^verbatim>\<open>IndexError\<close>.\<close>

lemma build_raises_example:
  "(case init (A1 [Fin 0, Fin 1, Fin 2])
           [\<lparr>f0 = 0, f1 = 1, f4 = ''A''\<rparr>, \<lparr>f0 = 1 / 10, f1 = 1, f4 = ''A''\<rparr>]
           (1 / 10) None (0, 1 / 10) of
      Inl e \<Rightarrow> None
    | Inr (st, out) \<Rightarrow>
        Some (ntps st, nHEst st, map_sum id length (trScale st), snd (getFIRmodel st)))
   = Some (3, 1, Inr 4, Some IndexError)"
  by code_simp

end
